theory Spec2Isabelle
  imports Complex_Main
begin

section \<open>Text: characters and the string methods the parser calls\<close>

text \<open>
  The parser of \<^verbatim>\<open>src/main.py\<close> works on Python \<^verbatim>\<open>str\<close> values. A
  string is modelled as a \<^typ>\<open>string\<close>, each \<^typ>\<open>char\<close> read as the code point
  of that number, so the model covers the texts whose code points lie below 256. The
  character classes below are Python's on that range: \<^verbatim>\<open>str.isspace\<close> and the
  pattern class \<^verbatim>\<open>\s\<close> agree there, \<^verbatim>\<open>\d\<close> is the ten ASCII digits, and
  \<^verbatim>\<open>\w\<close> is the alphanumeric code points and the underscore.
\<close>

definition code :: "char \<Rightarrow> nat" where
  "code c = of_char c"

definition isspace :: "char \<Rightarrow> bool" where
  "isspace c = (let n = code c in (9 \<le> n \<and> n \<le> 13) \<or> (28 \<le> n \<and> n \<le> 32) \<or> n = 133 \<or> n = 160)"

definition is_digit :: "char \<Rightarrow> bool" where
  "is_digit c = (let n = code c in 48 \<le> n \<and> n \<le> 57)"

definition is_word :: "char \<Rightarrow> bool" where
  "is_word c = (let n = code c in
     (48 \<le> n \<and> n \<le> 57) \<or> (65 \<le> n \<and> n \<le> 90) \<or> n = 95 \<or> (97 \<le> n \<and> n \<le> 122) \<or>
     n = 170 \<or> n = 178 \<or> n = 179 \<or> n = 181 \<or> n = 185 \<or> n = 186 \<or>
     (188 \<le> n \<and> n \<le> 190) \<or> (192 \<le> n \<and> n \<le> 214) \<or> (216 \<le> n \<and> n \<le> 246) \<or>
     (248 \<le> n \<and> n \<le> 255))"

text \<open>
  \<^verbatim>\<open>str.lower\<close> maps a character to a character on this range.
  \<^verbatim>\<open>str.upper\<close> does not: the sharp s (223) becomes the two letters
  \<^verbatim>\<open>SS\<close>, so \<open>upper_char\<close> returns a string. The capitals of the micro sign
  (181) and of y with diaeresis (255) lie beyond 255; the model leaves these two
  characters in place. The parser only ever asks whether an ASCII keyword occurs in an
  upper-cased string, and no such test can tell the difference.
\<close>

definition lower_char :: "char \<Rightarrow> char" where
  "lower_char c = (let n = code c in
     if (65 \<le> n \<and> n \<le> 90) \<or> (192 \<le> n \<and> n \<le> 222 \<and> n \<noteq> 215) then char_of (n + 32) else c)"

definition upper_char :: "char \<Rightarrow> string" where
  "upper_char c = (let n = code c in
     if (97 \<le> n \<and> n \<le> 122) \<or> (224 \<le> n \<and> n \<le> 254 \<and> n \<noteq> 247) then [char_of (n - 32)]
     else if n = 223 then ''SS'' else [c])"

definition lower :: "string \<Rightarrow> string" where
  "lower s = map lower_char s"

definition upper :: "string \<Rightarrow> string" where
  "upper s = concat (map upper_char s)"

text \<open>\<^verbatim>\<open>s.strip()\<close> and \<^verbatim>\<open>s.strip(chars)\<close>.\<close>

definition strip_chars :: "(char \<Rightarrow> bool) \<Rightarrow> string \<Rightarrow> string" where
  "strip_chars p s = rev (dropWhile p (rev (dropWhile p s)))"

definition strip :: "string \<Rightarrow> string" where
  "strip s = strip_chars isspace s"

text \<open>\<^verbatim>\<open>needle in hay\<close> on strings: \<open>needle\<close> occurs in \<open>hay\<close> as a block.\<close>

fun starts_with :: "string \<Rightarrow> string \<Rightarrow> bool" where
  "starts_with [] s = True"
| "starts_with (a # as) [] = False"
| "starts_with (a # as) (c # cs) = (a = c \<and> starts_with as cs)"

fun py_in :: "string \<Rightarrow> string \<Rightarrow> bool" where
  "py_in needle [] = (needle = [])"
| "py_in needle (c # cs) = (starts_with needle (c # cs) \<or> py_in needle cs)"

text \<open>
  \<^verbatim>\<open>s.split()\<close> cuts at runs of whitespace and drops the empty pieces;
  \<^verbatim>\<open>s.split('\n')\<close> cuts at every separator and keeps them;
  \<^verbatim>\<open>sep.join(parts)\<close>.
\<close>

fun split_ws_acc :: "string \<Rightarrow> string \<Rightarrow> string list" where
  "split_ws_acc cur [] = (if cur = [] then [] else [rev cur])"
| "split_ws_acc cur (c # cs) =
     (if isspace c then (if cur = [] then split_ws_acc [] cs else rev cur # split_ws_acc [] cs)
      else split_ws_acc (c # cur) cs)"

definition split_ws :: "string \<Rightarrow> string list" where
  "split_ws s = split_ws_acc [] s"

fun split_on_acc :: "char \<Rightarrow> string \<Rightarrow> string \<Rightarrow> string list" where
  "split_on_acc sep cur [] = [rev cur]"
| "split_on_acc sep cur (c # cs) =
     (if c = sep then rev cur # split_on_acc sep [] cs else split_on_acc sep (c # cur) cs)"

definition split_on :: "char \<Rightarrow> string \<Rightarrow> string list" where
  "split_on sep s = split_on_acc sep [] s"

fun join :: "string \<Rightarrow> string list \<Rightarrow> string" where
  "join sep [] = []"
| "join sep [x] = x"
| "join sep (x # y # ys) = x @ sep @ join sep (y # ys)"

text \<open>
  \<^verbatim>\<open>s.replace(old, new)\<close> for a non-empty \<open>old\<close>: every occurrence, left to
  right, none overlapping an earlier one. (The parser calls it with two fixed non-empty
  strings; with an empty \<open>old\<close> the model returns \<open>s\<close>.)
\<close>

function replace :: "string \<Rightarrow> string \<Rightarrow> string \<Rightarrow> string" where
  "replace old new s =
     (if old \<noteq> [] \<and> starts_with old s then new @ replace old new (drop (length old) s)
      else (case s of [] \<Rightarrow> [] | c # cs \<Rightarrow> c # replace old new cs))"
  by pat_completeness auto
termination
proof (relation "measure (\<lambda>(old, new, s). length s)")
  show "wf (measure (\<lambda>(old, new, s). length s))" by simp
next
  fix old new s :: string
  assume "old \<noteq> [] \<and> starts_with old s"
  then have "s \<noteq> []" by (cases old; cases s) auto
  with \<open>old \<noteq> [] \<and> starts_with old s\<close>
  show "((old, new, drop (length old) s), (old, new, s)) \<in> measure (\<lambda>(old, new, s). length s)"
    by simp
next
  fix old new s :: string and c cs
  assume "s = c # cs"
  then show "((old, new, cs), (old, new, s)) \<in> measure (\<lambda>(old, new, s). length s)"
    by simp
qed

declare replace.simps [simp del]

section \<open>Regular expressions as the parser uses them\<close>

text \<open>
  The parser's patterns are written out as values of \<open>rx\<close> and run by one backtracking
  matcher, which follows Python's \<^verbatim>\<open>re\<close>: alternatives are tried left to
  right, \<^verbatim>\<open>*\<close> takes as much as it can before it gives back, \<^verbatim>\<open>*?\<close> as
  little as it can before it takes more. A cursor is the character before the
  position (none at the start of the string) and the text from the position on.
\<close>

datatype rx =
    Sym "char \<Rightarrow> bool"
  | Eps
  | Seq rx rx
  | Alt rx rx
  | Star rx
  | Lazy rx
  | Bol
  | Eol
  | Eos
  | Wordb

type_synonym cursor = "char option \<times> string"

definition word_before :: "char option \<Rightarrow> bool" where
  "word_before prev = (case prev of None \<Rightarrow> False | Some c \<Rightarrow> is_word c)"

definition word_after :: "string \<Rightarrow> bool" where
  "word_after s = (case s of [] \<Rightarrow> False | c # cs \<Rightarrow> is_word c)"

text \<open>
  \<open>ms r cur\<close> lists the cursors at which a match of \<open>r\<close> that starts at \<open>cur\<close> can
  end, in the order in which the backtracking matcher tries them. \<open>Bol\<close> is
  \<^verbatim>\<open>^\<close>, \<open>Eol\<close> is \<^verbatim>\<open>$\<close> (the end, or just before a final newline),
  \<open>Eos\<close> is \<^verbatim>\<open>\Z\<close>, \<open>Wordb\<close> is \<^verbatim>\<open>\b\<close>. A repetition only goes
  round again after a round that consumed something.
\<close>

function ms :: "rx \<Rightarrow> cursor \<Rightarrow> cursor list" where
  "ms (Sym p) (prev, s) = (case s of [] \<Rightarrow> [] | c # cs \<Rightarrow> if p c then [(Some c, cs)] else [])"
| "ms Eps cur = [cur]"
| "ms (Seq a b) cur = concat (map (ms b) (ms a cur))"
| "ms (Alt a b) cur = ms a cur @ ms b cur"
| "ms (Star a) cur =
     concat (map (\<lambda>cur'. if length (snd cur') < length (snd cur) then ms (Star a) cur' else [])
                 (ms a cur)) @ [cur]"
| "ms (Lazy a) cur =
     cur # concat (map (\<lambda>cur'. if length (snd cur') < length (snd cur) then ms (Lazy a) cur' else [])
                       (ms a cur))"
| "ms Bol (prev, s) = (if prev = None then [(prev, s)] else [])"
| "ms Eol (prev, s) = (if s = [] \<or> s = [CHR 0x0A] then [(prev, s)] else [])"
| "ms Eos (prev, s) = (if s = [] then [(prev, s)] else [])"
| "ms Wordb (prev, s) = (if word_before prev \<noteq> word_after s then [(prev, s)] else [])"
  by pat_completeness auto
termination
  by (relation "measures [\<lambda>(r, cur). size r, \<lambda>(r, cur). length (snd cur)]") auto

declare ms.simps(5) [simp del] ms.simps(6) [simp del]


text \<open>
  The first way a match of \<open>r\<close> can end when it starts at the cursor, if it consumes
  a character. Every pattern the parser substitutes or splits on consumes one; a match
  of nothing, which none of them has, counts as no match.
\<close>

definition first_match :: "rx \<Rightarrow> cursor \<Rightarrow> cursor option" where
  "first_match r cur =
     (case ms r cur of
        [] \<Rightarrow> None
      | cur' # rest \<Rightarrow> if length (snd cur') < length (snd cur) then Some cur' else None)"

lemma first_match_shorter:
  "first_match r cur = Some cur' \<Longrightarrow> length (snd cur') < length (snd cur)"
  by (auto simp: first_match_def split: list.splits if_splits)

text \<open>
  \<^verbatim>\<open>re.sub(r, repl, s)\<close> with a constant replacement: the leftmost match is
  replaced and the scan goes on behind it.
\<close>

function re_sub_from :: "rx \<Rightarrow> string \<Rightarrow> cursor \<Rightarrow> string" where
  "re_sub_from r repl (prev, s) =
     (case first_match r (prev, s) of
        Some cur' \<Rightarrow> repl @ re_sub_from r repl cur'
      | None \<Rightarrow> (case s of [] \<Rightarrow> [] | c # cs \<Rightarrow> c # re_sub_from r repl (Some c, cs)))"
  by pat_completeness auto
termination
  by (relation "measure (\<lambda>(r, repl, cur). length (snd cur))")
     (auto dest: first_match_shorter)

declare re_sub_from.simps [simp del]

definition re_sub :: "rx \<Rightarrow> string \<Rightarrow> string \<Rightarrow> string" where
  "re_sub r repl s = re_sub_from r repl (None, s)"

text \<open>\<^verbatim>\<open>re.split(r, s)\<close> for a pattern without groups: the pieces between the matches.\<close>

function re_split_from :: "rx \<Rightarrow> string \<Rightarrow> cursor \<Rightarrow> string list" where
  "re_split_from r piece (prev, s) =
     (case first_match r (prev, s) of
        Some cur' \<Rightarrow> rev piece # re_split_from r [] cur'
      | None \<Rightarrow> (case s of [] \<Rightarrow> [rev piece] | c # cs \<Rightarrow> re_split_from r (c # piece) (Some c, cs)))"
  by pat_completeness auto
termination
  by (relation "measure (\<lambda>(r, piece, cur). length (snd cur))")
     (auto dest: first_match_shorter)

declare re_split_from.simps [simp del]

definition re_split :: "rx \<Rightarrow> string \<Rightarrow> string list" where
  "re_split r s = re_split_from r [] (None, s)"

text \<open>
  \<^verbatim>\<open>re.search\<close> for a pattern of the shape \<^verbatim>\<open>pre(grp)post\<close> with one
  group: the leftmost position at which the pattern matches, and there the text of the
  group in the first match the backtracking finds. The result is the pair of
  \<^verbatim>\<open>m.start()\<close> and \<^verbatim>\<open>m.group(1)\<close>; \<open>None\<close> is no match.
\<close>

definition match_group :: "rx \<Rightarrow> rx \<Rightarrow> rx \<Rightarrow> cursor \<Rightarrow> string list" where
  "match_group pre grp post cur =
     concat (map (\<lambda>c1. concat (map (\<lambda>c2. map (\<lambda>c3. take (length (snd c1) - length (snd c2)) (snd c1))
                                               (ms post c2))
                                 (ms grp c1)))
                 (ms pre cur))"

fun search_group_from :: "rx \<Rightarrow> rx \<Rightarrow> rx \<Rightarrow> nat \<Rightarrow> char option \<Rightarrow> string \<Rightarrow> (nat \<times> string) option" where
  "search_group_from pre grp post i prev [] =
     (case match_group pre grp post (prev, []) of g # gs \<Rightarrow> Some (i, g) | [] \<Rightarrow> None)"
| "search_group_from pre grp post i prev (c # cs) =
     (case match_group pre grp post (prev, c # cs) of
        g # gs \<Rightarrow> Some (i, g)
      | [] \<Rightarrow> search_group_from pre grp post (Suc i) (Some c) cs)"

definition search_group :: "rx \<Rightarrow> rx \<Rightarrow> rx \<Rightarrow> string \<Rightarrow> (nat \<times> string) option" where
  "search_group pre grp post s = search_group_from pre grp post 0 None s"

subsection \<open>Building blocks of the patterns\<close>

definition chr :: "char \<Rightarrow> rx" where
  "chr c = Sym (\<lambda>x. x = c)"

text \<open>A letter of a pattern compiled with \<^verbatim>\<open>re.IGNORECASE\<close>.\<close>

definition chr_ci :: "char \<Rightarrow> rx" where
  "chr_ci c = Sym (\<lambda>x. lower_char x = lower_char c)"

fun lit :: "string \<Rightarrow> rx" where
  "lit [] = Eps"
| "lit (c # cs) = Seq (chr c) (lit cs)"

fun lit_ci :: "string \<Rightarrow> rx" where
  "lit_ci [] = Eps"
| "lit_ci (c # cs) = Seq (chr_ci c) (lit_ci cs)"

definition opt_rx :: "rx \<Rightarrow> rx" where
  "opt_rx r = Alt r Eps"

definition plus_rx :: "rx \<Rightarrow> rx" where
  "plus_rx r = Seq r (Star r)"

definition lazy_plus_rx :: "rx \<Rightarrow> rx" where
  "lazy_plus_rx r = Seq r (Lazy r)"

fun alts :: "rx list \<Rightarrow> rx" where
  "alts [] = Sym (\<lambda>x. False)"
| "alts [r] = r"
| "alts (r # r' # rs) = Alt r (alts (r' # rs))"

definition digit :: rx where
  "digit = Sym is_digit"

definition space :: rx where
  "space = Sym isspace"

text \<open>\<^verbatim>\<open>.\<close> without and with \<^verbatim>\<open>re.DOTALL\<close>.\<close>

definition dot :: rx where
  "dot = Sym (\<lambda>x. x \<noteq> CHR 0x0A)"

definition dot_all :: rx where
  "dot_all = Sym (\<lambda>x. True)"

section \<open>The data model\<close>

text \<open>
  \<^verbatim>\<open>PriceRow\<close>, the record of one commodity's price. \<^verbatim>\<open>Optional\<close> fields are
  options. A price is a Python \<^verbatim>\<open>float\<close>; the model keeps the exact decimal
  value the price token denotes, as a rational number, and does not round it to a
  binary fraction.
\<close>

record PriceRow =
  category :: string
  commodity :: string
  origin :: "string option"
  unit :: "string option"
  price :: "rat option"

text \<open>The dictionary that \<^verbatim>\<open>parse_text_to_json\<close> returns.\<close>

record parse_result =
  covered_markets :: "string list"
  price_data :: "PriceRow list"

definition KNOWN_CATEGORIES :: "string list" where
  "KNOWN_CATEGORIES =
     [''IMPORTED COMMERCIAL RICE'', ''LOCAL COMMERCIAL RICE'', ''CORN PRODUCTS'',
      ''FISH PRODUCTS'', ''BEEF MEAT PRODUCTS'', ''PORK MEAT PRODUCTS'',
      ''OTHER LIVESTOCK MEAT PRODUCTS'', ''POULTRY PRODUCTS'',
      ''LOWLAND VEGETABLES'', ''HIGHLAND VEGETABLES'', ''SPICES'',
      ''FRUITS'', ''OTHER BASIC COMMODITIES'']"

section \<open>\<^verbatim>\<open>normalize_commodity_name\<close>\<close>

text \<open>
  The rule cascade is a tree of \<^verbatim>\<open>if\<close> statements whose leaves return. A
  \<open>When\<close> node is an \<^verbatim>\<open>if\<close> with its body, a \<open>Return\<close> node a
  \<^verbatim>\<open>return\<close>; \<open>run_rules\<close> runs a block of statements and gives the returned
  value, or \<open>None\<close> when control falls out of the block.
\<close>

datatype rule = Return string | When bool "rule list"

fun run_rules :: "rule list \<Rightarrow> string option" where
  "run_rules [] = None"
| "run_rules (Return r # rest) = Some r"
| "run_rules (When c body # rest) =
     (if c then (case run_rules body of Some r \<Rightarrow> Some r | None \<Rightarrow> run_rules rest)
      else run_rules rest)"

definition specific_rules :: "string \<Rightarrow> string \<Rightarrow> rule list" where
  "specific_rules upper_cat upper_name =
    [When (py_in ''CORN'' upper_cat)
       [When (py_in ''GRITS'' upper_name)
          [When (py_in ''WHITE'' upper_name) [Return ''Corn Grits White''],
           When (py_in ''YELLOW'' upper_name) [Return ''Corn Grits Yellow''],
           When (py_in ''FEED GRADE'' upper_name) [Return ''Corn Grits Feed Grade'']],
        When (py_in ''CRACKED'' upper_name) [Return ''Corn Cracked Yellow''],
        When (py_in ''COB'' upper_name)
          [When (py_in ''WHITE'' upper_name \<or> py_in ''GLUTINOUS'' upper_name) [Return ''Corn Cob White''],
           When (py_in ''YELLOW'' upper_name \<or> py_in ''SWEET'' upper_name) [Return ''Corn Cob Yellow'']]],
     When (py_in ''RICE'' upper_cat)
       [When (py_in ''SPECIAL'' upper_name) [Return ''Special White Rice''],
        When (py_in ''PREMIUM'' upper_name) [Return ''Premium Rice''],
        When (py_in ''WELL MILLED'' upper_name) [Return ''Well Milled Rice''],
        When (py_in ''REGULAR MILLED'' upper_name) [Return ''Regular Milled Rice''],
        When (py_in ''GLUTINOUS'' upper_name) [Return ''Glutinous Rice''],
        When (py_in ''JASPONICA'' upper_name \<or> py_in ''JAPONICA'' upper_name) [Return ''Jasponica Rice''],
        When (py_in ''BASMATI'' upper_name) [Return ''Basmati Rice'']],
     When (py_in ''VEGETABLES'' upper_cat \<or> py_in ''SPICES'' upper_cat)
       [When (py_in ''BELL PEPPER'' upper_name)
          [When (py_in ''RED'' upper_name) [Return ''Bell Pepper Red''],
           When (py_in ''GREEN'' upper_name) [Return ''Bell Pepper Green'']],
        When (py_in ''CABBAGE'' upper_name)
          [When (py_in ''SCORPIO'' upper_name) [Return ''Cabbage Scorpio''],
           When (py_in ''RARE BALL'' upper_name) [Return ''Cabbage Rare Ball''],
           When (py_in ''WONDER BALL'' upper_name) [Return ''Cabbage Wonder Ball'']],
        When (py_in ''ONION'' upper_name)
          [When (py_in ''RED'' upper_name) [Return ''Red Onion''],
           When (py_in ''WHITE'' upper_name) [Return ''White Onion'']],
        When (py_in ''CHILLI'' upper_name)
          [When (py_in ''RED'' upper_name \<or> py_in ''TINGALA'' upper_name) [Return ''Chilli Red''],
           When (py_in ''GREEN'' upper_name \<or> py_in ''PANIGANG'' upper_name) [Return ''Chilli Green'']]],
     When (py_in ''FISH'' upper_cat)
       [When (py_in ''BANGUS'' upper_name) [Return ''Bangus''],
        When (py_in ''TILAPIA'' upper_name) [Return ''Tilapia''],
        When (py_in ''GALUNGGONG'' upper_name) [Return ''Galunggong''],
        When (py_in ''ALUMAHAN'' upper_name) [Return ''Alumahan''],
        When (py_in ''SQUID'' upper_name) [Return ''Squid''],
        When (py_in ''SALMON BELLY'' upper_name) [Return ''Salmon Belly''],
        When (py_in ''SALMON HEAD'' upper_name) [Return ''Salmon Head''],
        When (py_in ''PAMPANO'' upper_name) [Return ''Pampano'']],
     When (py_in ''MEAT'' upper_cat \<or> py_in ''POULTRY'' upper_cat)
       [When (py_in ''WHOLE CHICKEN'' upper_name) [Return ''Whole Chicken''],
        When (py_in ''CHICKEN EGG'' upper_name) [Return ''Chicken Egg''],
        When (py_in ''BEEF BRISKET'' upper_name) [Return ''Beef Brisket''],
        When (py_in ''PORK BELLY'' upper_name) [Return ''Pork Belly''],
        When (py_in ''PORK CHOP'' upper_name) [Return ''Pork Chop'']],
     When (py_in ''OTHER BASIC'' upper_cat)
       [When (py_in ''COOKING OIL'' upper_name)
          [When (py_in ''PALM'' upper_name) [Return ''Cooking Oil (Palm)''],
           When (py_in ''COCONUT'' upper_name) [Return ''Cooking Oil (Coconut)''],
           Return ''Cooking Oil''],
        When (py_in ''SUGAR'' upper_name)
          [When (py_in ''REFINED'' upper_name) [Return ''Sugar (Refined)''],
           When (py_in ''WASHED'' upper_name) [Return ''Sugar (Washed)''],
           When (py_in ''BROWN'' upper_name) [Return ''Sugar (Brown)'']],
        When (py_in ''SALT'' upper_name)
          [When (py_in ''IODIZED'' upper_name) [Return ''Salt (Iodized)''],
           When (py_in ''ROCK'' upper_name) [Return ''Salt (Rock)'']]]]"

text \<open>The patterns of the fallback cleaning.\<close>

definition control_rx :: rx where
  \<comment> \<open>\<^verbatim>\<open>[\x00-\x1F\x7F-\x9F]\<close>\<close>
  "control_rx = Sym (\<lambda>x. code x \<le> 31 \<or> (127 \<le> code x \<and> code x \<le> 159))"

definition paren_rx :: rx where
  \<comment> \<open>\<^verbatim>\<open>\((.*?)\)\<close>\<close>
  "paren_rx = Seq (chr CHR ''('') (Seq (Lazy dot) (chr CHR '')''))"

definition remove_words :: "string list" where
  "remove_words =
     [''Magnolia'', ''Bounty Fresh'', ''Unbranded'', ''Fresh'', ''Fully Dressed'',
      ''Jolly Brand'', ''Jolly'', ''Palm Olein'', ''Spring'', ''Minola'', ''Brand'',
      ''Local'', ''Imported'', ''frozen'', ''chilled'', ''whole round'', ''medium'', ''large'', ''small'',
      ''lean meat'', ''tapadera'', ''meat with bones'', ''food grade'', ''feed grade'']"

definition word_rx :: "string \<Rightarrow> rx" where
  \<comment> \<open>\<^verbatim>\<open>\b{word}\b\<close>, \<^verbatim>\<open>re.IGNORECASE\<close>\<close>
  "word_rx word = Seq Wordb (Seq (lit_ci word) Wordb)"

definition unit_rx :: rx where
  \<comment> \<open>\<^verbatim>\<open>\d+[-\s]*\d*\s*(pcs|kg|g|ml|liter|bottle).*\<close>, \<^verbatim>\<open>re.IGNORECASE\<close>\<close>
  "unit_rx =
     Seq (plus_rx digit)
      (Seq (Star (Sym (\<lambda>x. x = CHR ''-'' \<or> isspace x)))
        (Seq (Star digit)
          (Seq (Star space)
            (Seq (alts [lit_ci ''pcs'', lit_ci ''kg'', lit_ci ''g'', lit_ci ''ml'', lit_ci ''liter'', lit_ci ''bottle''])
              (Star dot)))))"

definition fallback_cleaning :: "string \<Rightarrow> string" where
  "fallback_cleaning name_clean =
     (let name = re_sub paren_rx [] name_clean;
          name = foldl (\<lambda>name word. re_sub (word_rx word) [] name) name remove_words;
          name = re_sub unit_rx [] name
      in strip_chars (\<lambda>x. x \<in> set '' -,'') (join '' '' (split_ws name)))"

definition normalize_commodity_name :: "string \<Rightarrow> string \<Rightarrow> string" where
  "normalize_commodity_name raw_name cat =
     (let name_clean = re_sub control_rx [] raw_name;
          name_clean = join '' '' (split_ws name_clean);
          upper_name = upper name_clean;
          upper_cat = upper cat
      in case run_rules (specific_rules upper_cat upper_name) of
           Some canonical \<Rightarrow> canonical
         | None \<Rightarrow> fallback_cleaning name_clean)"

section \<open>\<^verbatim>\<open>determine_origin\<close> and \<^verbatim>\<open>determine_unit\<close>\<close>

definition determine_origin :: "string \<Rightarrow> string \<Rightarrow> string" where
  "determine_origin raw_line cat =
     (let line_upper = upper raw_line; cat_upper = upper cat
      in if py_in ''IMPORTED'' line_upper \<or> py_in ''IMPORTED'' cat_upper then ''Imported''
         else ''Local'')"

definition determine_unit :: "string \<Rightarrow> string \<Rightarrow> string option" where
  "determine_unit raw_line cat =
     (let line_lower = lower raw_line
      in if py_in ''bottle'' line_lower \<or> py_in ''liter'' line_lower \<or> py_in ''ml'' line_lower
         then Some ''L''
         else if py_in ''egg'' (lower cat) \<or> py_in ''pc'' line_lower then Some ''pc''
         else if list_ex (\<lambda>x. py_in x line_lower)
                   [''kg'', ''kilo'', ''broken'', ''meat'', ''fish'', ''vegetable'', ''fruit'',
                    ''spice'', ''sugar'', ''salt'', ''corn'']
         then Some ''kg''
         else None)"

section \<open>\<^verbatim>\<open>parse_smart_row\<close>\<close>

text \<open>
  The price pattern
  \<^verbatim>\<open>(?:^|\s)(\d{1,3}(?:,\d{3})*\.\d{2}|\$n/a\$|-)\s*$\<close>
  in its three parts: what stands before the group, the group, what stands behind it.
\<close>

definition price_pre :: rx where
  "price_pre = Alt Bol space"

definition price_number :: rx where
  \<comment> \<open>\<^verbatim>\<open>\d{1,3}(?:,\d{3})*\.\d{2}\<close>\<close>
  "price_number =
     Seq (Seq digit (opt_rx (Seq digit (opt_rx digit))))
      (Seq (Star (Seq (chr CHR '','') (Seq digit (Seq digit digit))))
        (Seq (chr CHR ''.'') (Seq digit digit)))"

definition price_token :: rx where
  "price_token = Alt price_number (Alt (lit ''$n/a$'') (lit ''-''))"

definition price_post :: rx where
  "price_post = Seq (Star space) Eol"

text \<open>
  \<^verbatim>\<open>float(s)\<close> on a plain decimal literal: digits, possibly a point and more
  digits, with a digit somewhere. \<open>Inl ValueError\<close> is the exception. Python's
  \<^verbatim>\<open>float\<close> also reads a sign, an exponent, underscores between digits,
  surrounding whitespace and the words for infinity and not-a-number; the model covers
  none of these and answers \<open>Inl ValueError\<close> there. It is called on price tokens
  only, and no price token has such a form.
\<close>

datatype py_error = ValueError

definition dec_value :: "string \<Rightarrow> nat" where
  "dec_value ds = foldl (\<lambda>n c. 10 * n + (code c - 48)) 0 ds"

definition py_float :: "string \<Rightarrow> py_error + rat" where
  "py_float s =
     (let ip = takeWhile is_digit s; r = dropWhile is_digit s
      in case r of
           [] \<Rightarrow> if ip = [] then Inl ValueError else Inr (of_nat (dec_value ip))
         | c # fp \<Rightarrow>
             if c = CHR ''.'' \<and> list_all is_digit fp \<and> (ip \<noteq> [] \<or> fp \<noteq> [])
             then Inr (of_nat (dec_value ip) + of_nat (dec_value fp) / 10 ^ length fp)
             else Inl ValueError)"

text \<open>
  Step 5 of \<^verbatim>\<open>parse_smart_row\<close>: \<^verbatim>\<open>final_price\<close> starts as
  \<^verbatim>\<open>None\<close>, the conversion runs for a token that is not a sentinel, and the bare
  \<^verbatim>\<open>except\<close> swallows its exception.
\<close>

definition convert_price :: "string \<Rightarrow> rat option" where
  "convert_price price_str =
     (if price_str \<notin> set [''-'', ''$n/a$'']
      then (case py_float price_str of Inr v \<Rightarrow> Some v | Inl e \<Rightarrow> None)
      else None)"

definition price_match :: "string \<Rightarrow> (nat \<times> string) option" where
  "price_match line = search_group price_pre price_token price_post line"

definition parse_smart_row :: "string \<Rightarrow> string \<Rightarrow> PriceRow option" where
  "parse_smart_row line0 current_category =
     (let line = strip line0
      in case price_match line of
           None \<Rightarrow> None
         | Some (start, token) \<Rightarrow>
             (let price_str = replace '','' [] token;
                  raw_name_part = strip (take start line);
                  origin = determine_origin raw_name_part current_category;
                  clean_name = normalize_commodity_name raw_name_part current_category
              in if length clean_name < 2 then None
                 else
                   (let unit = determine_unit raw_name_part current_category;
                        final_price = convert_price price_str;
                        clean_cat = strip (replace ''LOCAL '' [] (replace ''IMPORTED '' [] current_category))
                    in Some \<lparr>category = clean_cat, commodity = clean_name, origin = Some origin,
                              unit = unit, price = final_price\<rparr>)))"

section \<open>\<^verbatim>\<open>parse_text_to_json\<close>\<close>

subsection \<open>Market extraction\<close>

text \<open>
  The market pattern
  \<^verbatim>\<open>(?:d\)|Covered markets:)\s*(1\..+?)(?:Page|\Z)\<close>, compiled with
  \<^verbatim>\<open>re.DOTALL | re.IGNORECASE\<close>, in its three parts, and the pattern
  \<^verbatim>\<open>\s*\d+\.\s*\<close> the block is split on.
\<close>

definition market_pre :: rx where
  "market_pre = Seq (Alt (lit_ci ''d)'') (lit_ci ''Covered markets:'')) (Star space)"

definition market_block :: rx where
  "market_block = Seq (lit_ci ''1.'') (lazy_plus_rx dot_all)"

definition market_post :: rx where
  "market_post = Alt (lit_ci ''Page'') Eos"

definition marker_rx :: rx where
  "marker_rx = Seq (Star space) (Seq (plus_rx digit) (Seq (chr CHR ''.'') (Star space)))"

text \<open>
  \<^verbatim>\<open>list(dict.fromkeys(xs))\<close>: a dictionary keeps its keys in the order of their
  first insertion; it is an association list here.
\<close>

fun dict_set :: "('k \<times> 'v) list \<Rightarrow> 'k \<Rightarrow> 'v \<Rightarrow> ('k \<times> 'v) list" where
  "dict_set [] k v = [(k, v)]"
| "dict_set ((k', v') # d) k v = (if k' = k then (k', v) # d else (k', v') # dict_set d k v)"

definition dict_fromkeys :: "'k list \<Rightarrow> ('k \<times> unit) list" where
  "dict_fromkeys ks = foldl (\<lambda>d k. dict_set d k ()) [] ks"

definition dict_keys :: "('k \<times> 'v) list \<Rightarrow> 'k list" where
  "dict_keys d = map fst d"

definition clean_market :: "string \<Rightarrow> string" where
  \<comment> \<open>\<^verbatim>\<open>re.sub(r'[\n\r]', ' ', m).strip()\<close>\<close>
  "clean_market m = strip (re_sub (Sym (\<lambda>x. x = CHR 0x0A \<or> x = CHR 0x0D)) '' '' m)"

definition extract_markets :: "string \<Rightarrow> string list" where
  "extract_markets raw_text =
     (case search_group market_pre market_block market_post raw_text of
        None \<Rightarrow> []
      | Some (start, raw_block) \<Rightarrow>
          (let raw_markets = re_split marker_rx raw_block;
               market_list = map clean_market (filter (\<lambda>m. strip m \<noteq> [] \<and> length m > 3) raw_markets)
           in dict_keys (dict_fromkeys market_list)))"

subsection \<open>Row processing\<close>

text \<open>
  The duplicate check of the loop body. \<open>merge_scan\<close> is the inner
  \<^verbatim>\<open>for existing in price_data_list\<close>: it stops at the first row with the key of
  the new one, fills that row's price if it has none and the new row has one, and
  reports a duplicate (\<open>Some\<close> of the list as it then stands); \<open>None\<close> is no
  duplicate. \<open>add_row\<close> appends a row that is no duplicate.
\<close>

definition same_key :: "PriceRow \<Rightarrow> PriceRow \<Rightarrow> bool" where
  "same_key existing row =
     (category existing = category row \<and> commodity existing = commodity row \<and>
      origin existing = origin row)"

fun merge_scan :: "PriceRow \<Rightarrow> PriceRow list \<Rightarrow> PriceRow list option" where
  "merge_scan row [] = None"
| "merge_scan row (existing # others) =
     (if same_key existing row
      then Some ((if price existing = None \<and> price row \<noteq> None
                  then existing\<lparr>price := price row\<rparr> else existing) # others)
      else map_option (\<lambda>others'. existing # others') (merge_scan row others))"

definition add_row :: "PriceRow \<Rightarrow> PriceRow list \<Rightarrow> PriceRow list" where
  "add_row row price_data_list =
     (case merge_scan row price_data_list of
        Some merged \<Rightarrow> merged
      | None \<Rightarrow> price_data_list @ [row])"

text \<open>The state of the loop over the lines, and one round of it.\<close>

record parse_state =
  current_category :: string
  price_data_list :: "PriceRow list"

definition is_noise :: "string \<Rightarrow> bool" where
  "is_noise line =
     list_ex (\<lambda>x. py_in x line)
       [''Source:'', ''Note:'', ''Prevailing'', ''Retail Price'', ''Page'', ''Department of'']"

definition detect_category :: "string \<Rightarrow> string option" where
  "detect_category line = find (\<lambda>cat. py_in cat (upper line)) KNOWN_CATEGORIES"

definition process_line :: "parse_state \<Rightarrow> string \<Rightarrow> parse_state" where
  "process_line st line0 =
     (let line = strip line0
      in if line = [] then st
         else case detect_category line of
                Some cat \<Rightarrow> st\<lparr>current_category := cat\<rparr>
              | None \<Rightarrow>
                  if is_noise line then st
                  else if current_category st \<noteq> ''UNKNOWN''
                  then (case parse_smart_row line (current_category st) of
                          Some row \<Rightarrow> st\<lparr>price_data_list := add_row row (price_data_list st)\<rparr>
                        | None \<Rightarrow> st)
                  else st)"

definition process_lines :: "parse_state \<Rightarrow> string list \<Rightarrow> parse_state" where
  "process_lines st lines = foldl process_line st lines"

definition initial_state :: parse_state where
  "initial_state = \<lparr>current_category = ''UNKNOWN'', price_data_list = []\<rparr>"

definition parse_text_to_json :: "string \<Rightarrow> parse_result" where
  "parse_text_to_json raw_text =
     (let lines = split_on (CHR 0x0A) raw_text;
          market_list = extract_markets raw_text;
          final = process_lines initial_state lines
      in \<lparr>covered_markets = market_list, price_data = price_data_list final\<rparr>)"

section \<open>Notions the properties are stated with\<close>

text \<open>The key of a row: the triple the duplicate check compares.\<close>

definition row_key :: "PriceRow \<Rightarrow> string \<times> string \<times> string option" where
  "row_key r = (category r, commodity r, origin r)"

text \<open>The position of the first accepted row that a new row matches.\<close>

definition matched_index :: "PriceRow \<Rightarrow> PriceRow list \<Rightarrow> nat" where
  "matched_index row xs = length (takeWhile (\<lambda>existing. \<not> same_key existing row) xs)"

text \<open>
  The rows that the lines of a text parse to, in the order of the lines: what the loop
  of \<^verbatim>\<open>parse_text_to_json\<close> hands to its duplicate check, one after the other.
  \<open>parsed_rows_agree\<close> below shows that the loop does fold exactly these rows.
\<close>

fun parsed_rows_from :: "string \<Rightarrow> string list \<Rightarrow> PriceRow list" where
  "parsed_rows_from cat [] = []"
| "parsed_rows_from cat (line0 # rest) =
     (let line = strip line0
      in if line = [] then parsed_rows_from cat rest
         else case detect_category line of
                Some cat' \<Rightarrow> parsed_rows_from cat' rest
              | None \<Rightarrow>
                  if is_noise line \<or> cat = ''UNKNOWN'' then parsed_rows_from cat rest
                  else (case parse_smart_row line cat of
                          Some row \<Rightarrow> row # parsed_rows_from cat rest
                        | None \<Rightarrow> parsed_rows_from cat rest))"

definition parsed_rows :: "string \<Rightarrow> PriceRow list" where
  "parsed_rows raw_text = parsed_rows_from ''UNKNOWN'' (split_on (CHR 0x0A) raw_text)"

text \<open>The price field of the first row with a given key, if there is such a row.\<close>

definition price_of :: "string \<times> string \<times> string option \<Rightarrow> PriceRow list \<Rightarrow> rat option option" where
  "price_of k xs = map_option price (find (\<lambda>r. row_key r = k) xs)"

text \<open>
  How the price recorded under a key changes when one more row is folded in: a row of
  another key leaves it alone, a row of the key sets it unless a price is already there.
\<close>

definition price_step :: "string \<times> string \<times> string option \<Rightarrow> rat option option \<Rightarrow> PriceRow \<Rightarrow> rat option option" where
  "price_step k s row =
     (if row_key row = k
      then (case s of Some (Some p) \<Rightarrow> Some (Some p) | _ \<Rightarrow> Some (price row))
      else s)"

text \<open>
  What \<^verbatim>\<open>parse_smart_row\<close> takes from a line: the price token (group 1 of the
  price pattern, \<open>None\<close> when the pattern does not match), the raw name segment
  (the text before the match, stripped), and the category as it is stored.
\<close>

definition price_token_of :: "string \<Rightarrow> string option" where
  "price_token_of line = map_option snd (price_match (strip line))"

definition raw_name_segment :: "string \<Rightarrow> string" where
  "raw_name_segment line =
     (case price_match (strip line) of
        None \<Rightarrow> []
      | Some (start, token) \<Rightarrow> strip (take start (strip line)))"

definition stored_category :: "string \<Rightarrow> string" where
  "stored_category cat = strip (replace ''LOCAL '' [] (replace ''IMPORTED '' [] cat))"

text \<open>
  A text contains the keyword Imported, in any mix of upper and lower case: the
  lower-cased text contains the lower-cased keyword.
\<close>

definition mentions_imported :: "string \<Rightarrow> bool" where
  "mentions_imported s = py_in (lower ''Imported'') (lower s)"

definition ascii_upper :: "char \<Rightarrow> bool" where
  "ascii_upper X = (65 \<le> code X \<and> code X \<le> 90)"

text \<open>
  The words of a pattern: \<open>rx_lang r w\<close> holds when \<open>w\<close> is a text that \<open>r\<close> can
  consume, whatever stands around it (the anchors and the word boundary consume nothing).
\<close>

inductive rx_lang :: "rx \<Rightarrow> string \<Rightarrow> bool" where
  Sym: "p c \<Longrightarrow> rx_lang (Sym p) [c]"
| Eps: "rx_lang Eps []"
| Seq: "rx_lang a u \<Longrightarrow> rx_lang b v \<Longrightarrow> rx_lang (Seq a b) (u @ v)"
| AltL: "rx_lang a u \<Longrightarrow> rx_lang (Alt a b) u"
| AltR: "rx_lang b u \<Longrightarrow> rx_lang (Alt a b) u"
| StarNil: "rx_lang (Star a) []"
| StarStep: "rx_lang a u \<Longrightarrow> rx_lang (Star a) v \<Longrightarrow> rx_lang (Star a) (u @ v)"
| LazyNil: "rx_lang (Lazy a) []"
| LazyStep: "rx_lang a u \<Longrightarrow> rx_lang (Lazy a) v \<Longrightarrow> rx_lang (Lazy a) (u @ v)"
| Bol: "rx_lang Bol []"
| Eol: "rx_lang Eol []"
| Eos: "rx_lang Eos []"
| Wordb: "rx_lang Wordb []"

inductive_simps rx_lang_Sym: "rx_lang (Sym p) w"
inductive_simps rx_lang_Eps: "rx_lang Eps w"
inductive_simps rx_lang_Seq: "rx_lang (Seq a b) w"
inductive_simps rx_lang_Alt: "rx_lang (Alt a b) w"

text \<open>
  The market list in the words of the specification: the captured block (group 1 of
  the market pattern), an entry trimmed of whitespace with its line breaks turned into
  blanks, a fragment that is empty but for whitespace, and the removal of duplicates
  that keeps each name where it was first seen.
\<close>

definition market_block_of :: "string \<Rightarrow> string option" where
  "market_block_of raw_text =
     map_option snd (search_group market_pre market_block market_post raw_text)"

definition trim_entry :: "string \<Rightarrow> string" where
  "trim_entry m = strip (map (\<lambda>c. if c = CHR 0x0A \<or> c = CHR 0x0D then CHR '' '' else c) m)"

definition is_blank :: "string \<Rightarrow> bool" where
  "is_blank m = list_all isspace m"

fun first_seen :: "'a list \<Rightarrow> 'a list" where
  "first_seen [] = []"
| "first_seen (x # xs) = x # first_seen (filter (\<lambda>y. y \<noteq> x) xs)"

text \<open>
  The market list as the specification's sentence lists its steps, one after the other:
  split the block at the numeric markers, trim every entry, discard the entries that
  are empty or have three characters or fewer, remove the duplicates.
\<close>

definition covered_markets_as_listed :: "string \<Rightarrow> string list" where
  "covered_markets_as_listed raw_text =
     (case market_block_of raw_text of
        None \<Rightarrow> []
      | Some block \<Rightarrow>
          first_seen (filter (\<lambda>entry. entry \<noteq> [] \<and> 3 < length entry)
                       (map trim_entry (re_split marker_rx block))))"

section \<open>The duplicate check\<close>

lemma same_key_iff: "same_key e r \<longleftrightarrow> row_key e = row_key r"
  by (auto simp: same_key_def row_key_def)

lemma row_key_price_update [simp]: "row_key (e\<lparr>price := p\<rparr>) = row_key e"
  by (simp add: row_key_def)

lemma merge_scan_keys:
  "merge_scan row xs = Some ys \<Longrightarrow> map row_key ys = map row_key xs"
  by (induction xs arbitrary: ys) (auto split: if_splits)

lemma merge_scan_None_iff:
  "merge_scan row xs = None \<longleftrightarrow> row_key row \<notin> row_key ` set xs"
  by (induction xs) (auto simp: same_key_iff)

lemma add_row_distinct:
  "distinct (map row_key xs) \<Longrightarrow> distinct (map row_key (add_row row xs))"
  by (auto simp: add_row_def merge_scan_keys merge_scan_None_iff split: option.splits)

lemma process_line_distinct:
  "distinct (map row_key (price_data_list st)) \<Longrightarrow>
   distinct (map row_key (price_data_list (process_line st line)))"
  by (auto simp: process_line_def Let_def add_row_distinct split: option.splits)

lemma process_lines_distinct:
  "distinct (map row_key (price_data_list st)) \<Longrightarrow>
   distinct (map row_key (price_data_list (process_lines st ls)))"
  unfolding process_lines_def
  by (induction ls arbitrary: st) (auto simp: process_line_distinct)

lemma result_keys_distinct:
  "distinct (map row_key (price_data (parse_text_to_json raw_text)))"
  by (simp add: parse_text_to_json_def Let_def process_lines_distinct initial_state_def)

lemma fish_text_result:
  "price_data (parse_text_to_json ''FISH PRODUCTS\<newline>Bangus -\<newline>Tilapia 9.50\<newline>Bangus 10.00'') =
     [\<lparr>category = ''FISH PRODUCTS'', commodity = ''Bangus'', origin = Some ''Local'',
        unit = None, price = Some 10\<rparr>,
      \<lparr>category = ''FISH PRODUCTS'', commodity = ''Tilapia'', origin = Some ''Local'',
        unit = None, price = Some (19 / 2)\<rparr>]"
  by code_simp

text \<open>
  C1. For every input text the rows of \<^verbatim>\<open>price_data\<close> have pairwise different
  keys (category, commodity, origin), and the duplicate check keeps it so for every row
  it folds in: adding a row to a list with pairwise different keys gives such a list.
\<close>

theorem price_data_keys_distinct:
  "distinct (map row_key (price_data (parse_text_to_json raw_text))) \<and>
   (distinct (map row_key xs) \<longrightarrow> distinct (map row_key (add_row row xs)))"
  by (simp add: result_keys_distinct add_row_distinct)

theorem price_data_keys_distinct_witness:
  "price_data (parse_text_to_json ''FISH PRODUCTS\<newline>Bangus -\<newline>Tilapia 9.50\<newline>Bangus 10.00'') =
     [\<lparr>category = ''FISH PRODUCTS'', commodity = ''Bangus'', origin = Some ''Local'',
        unit = None, price = Some 10\<rparr>,
      \<lparr>category = ''FISH PRODUCTS'', commodity = ''Tilapia'', origin = Some ''Local'',
        unit = None, price = Some (19 / 2)\<rparr>] \<and>
   distinct (map row_key (price_data (parse_text_to_json ''FISH PRODUCTS\<newline>Bangus -\<newline>Tilapia 9.50\<newline>Bangus 10.00''))) \<and>
   distinct (map row_key (add_row
     \<lparr>category = ''A'', commodity = ''Bb'', origin = None, unit = None, price = Some 1\<rparr>
     [\<lparr>category = ''A'', commodity = ''Bb'', origin = None, unit = Some ''kg'', price = None\<rparr>]))"
proof -
  note run = fish_text_result
  have one: "distinct (map row_key
     [\<lparr>category = ''A'', commodity = ''Bb'', origin = None, unit = Some ''kg'', price = None\<rparr>])"
    by simp
  note inst = price_data_keys_distinct
    [of "''FISH PRODUCTS\<newline>Bangus -\<newline>Tilapia 9.50\<newline>Bangus 10.00''"
        "[\<lparr>category = ''A'', commodity = ''Bb'', origin = None, unit = Some ''kg'', price = None\<rparr>]"
        "\<lparr>category = ''A'', commodity = ''Bb'', origin = None, unit = None, price = Some 1\<rparr>"]
  from inst one run show ?thesis by blast
qed

lemma merge_scan_update:
  "\<exists>e \<in> set xs. same_key e row \<Longrightarrow>
   merge_scan row xs = Some (xs[matched_index row xs :=
     (xs ! matched_index row xs)\<lparr>price :=
        (case price (xs ! matched_index row xs) of None \<Rightarrow> price row | Some p \<Rightarrow> Some p)\<rparr>])"
proof (induction xs)
  case Nil
  then show ?case by simp
next
  case (Cons e es)
  show ?case
  proof (cases "same_key e row")
    case True
    then show ?thesis by (auto simp: matched_index_def split: option.splits)
  next
    case False
    with Cons.prems have "\<exists>e \<in> set es. same_key e row" by auto
    from Cons.IH[OF this] False show ?thesis by (simp add: matched_index_def)
  qed
qed

lemma matched_index_props:
  "\<exists>e \<in> set xs. same_key e row \<Longrightarrow>
   matched_index row xs < length xs \<and> same_key (xs ! matched_index row xs) row \<and>
   (\<forall>j < matched_index row xs. \<not> same_key (xs ! j) row)"
  unfolding matched_index_def
  by (induction xs) (auto simp: nth_Cons split: nat.splits)

text \<open>
  C10. When a new row matches an accepted row on the key, the result is the old list
  with one row changed, the first one that matches, and in that row only the price:
  it becomes the new row's price if it was absent and stays as it was otherwise. The
  list keeps its length and every other row; the matched row keeps its category,
  commodity, origin and unit, so the new row's unit is dropped, also when the matched
  row has none.
\<close>

theorem merge_changes_price_only:
  assumes "\<exists>existing \<in> set xs. same_key existing row"
  shows "matched_index row xs < length xs \<and>
         same_key (xs ! matched_index row xs) row \<and>
         add_row row xs = xs[matched_index row xs :=
           (xs ! matched_index row xs)\<lparr>price :=
              (case price (xs ! matched_index row xs) of None \<Rightarrow> price row | Some p \<Rightarrow> Some p)\<rparr>] \<and>
         length (add_row row xs) = length xs \<and>
         unit (add_row row xs ! matched_index row xs) = unit (xs ! matched_index row xs)"
proof -
  note props = matched_index_props[OF assms]
  have upd: "add_row row xs = xs[matched_index row xs :=
           (xs ! matched_index row xs)\<lparr>price :=
              (case price (xs ! matched_index row xs) of None \<Rightarrow> price row | Some p \<Rightarrow> Some p)\<rparr>]"
    by (simp add: add_row_def merge_scan_update[OF assms])
  have len: "length (add_row row xs) = length xs"
    by (simp add: upd)
  have "unit (add_row row xs ! matched_index row xs) = unit (xs ! matched_index row xs)"
    using props by (subst upd) simp
  with props upd len show ?thesis by blast
qed

theorem merge_changes_price_only_witness:
  "matched_index
     \<lparr>category = ''FISH PRODUCTS'', commodity = ''Bangus'', origin = Some ''Local'',
       unit = Some ''kg'', price = Some 10\<rparr>
     [\<lparr>category = ''FISH PRODUCTS'', commodity = ''Tilapia'', origin = Some ''Local'',
        unit = None, price = Some 7\<rparr>,
      \<lparr>category = ''FISH PRODUCTS'', commodity = ''Bangus'', origin = Some ''Local'',
        unit = None, price = None\<rparr>] = 1 \<and>
   add_row
     \<lparr>category = ''FISH PRODUCTS'', commodity = ''Bangus'', origin = Some ''Local'',
       unit = Some ''kg'', price = Some 10\<rparr>
     [\<lparr>category = ''FISH PRODUCTS'', commodity = ''Tilapia'', origin = Some ''Local'',
        unit = None, price = Some 7\<rparr>,
      \<lparr>category = ''FISH PRODUCTS'', commodity = ''Bangus'', origin = Some ''Local'',
        unit = None, price = None\<rparr>] =
     [\<lparr>category = ''FISH PRODUCTS'', commodity = ''Tilapia'', origin = Some ''Local'',
        unit = None, price = Some 7\<rparr>,
      \<lparr>category = ''FISH PRODUCTS'', commodity = ''Bangus'', origin = Some ''Local'',
        unit = None, price = Some 10\<rparr>]"
proof -
  let ?row = "\<lparr>category = ''FISH PRODUCTS'', commodity = ''Bangus'', origin = Some ''Local'',
       unit = Some ''kg'', price = Some (10 :: rat)\<rparr>"
  let ?xs = "[\<lparr>category = ''FISH PRODUCTS'', commodity = ''Tilapia'', origin = Some ''Local'',
        unit = None, price = Some (7 :: rat)\<rparr>,
      \<lparr>category = ''FISH PRODUCTS'', commodity = ''Bangus'', origin = Some ''Local'',
        unit = None, price = None\<rparr>]"
  have hyp: "\<exists>existing \<in> set ?xs. same_key existing ?row"
    by (simp add: same_key_def)
  have ix: "matched_index ?row ?xs = 1"
    by (simp add: matched_index_def same_key_def)
  from merge_changes_price_only[OF hyp]
  have "add_row ?row ?xs = ?xs[matched_index ?row ?xs :=
           (?xs ! matched_index ?row ?xs)\<lparr>price :=
              (case price (?xs ! matched_index ?row ?xs) of None \<Rightarrow> price ?row | Some p \<Rightarrow> Some p)\<rparr>]"
    by blast
  then have "add_row ?row ?xs =
     [\<lparr>category = ''FISH PRODUCTS'', commodity = ''Tilapia'', origin = Some ''Local'',
        unit = None, price = Some 7\<rparr>,
      \<lparr>category = ''FISH PRODUCTS'', commodity = ''Bangus'', origin = Some ''Local'',
        unit = None, price = Some 10\<rparr>]"
    by (simp add: ix)
  with ix show ?thesis by blast
qed

section \<open>Merging the price of duplicates\<close>

lemma process_line_rows:
  "price_data_list (process_lines st (l # ls)) = price_data_list (process_lines (process_line st l) ls)"
  by (simp add: process_lines_def)

lemma parsed_rows_agree:
  "price_data_list (process_lines st ls) =
   foldl (\<lambda>acc row. add_row row acc) (price_data_list st) (parsed_rows_from (current_category st) ls)"
proof (induction ls arbitrary: st)
  case Nil
  then show ?case by (simp add: process_lines_def)
next
  case (Cons l ls)
  show ?case
    unfolding process_line_rows Cons.IH
    by (auto simp: process_line_def Let_def split: option.splits)
qed

lemma price_of_add_row:
  "price_of k (add_row row xs) = price_step k (price_of k xs) row"
proof (induction xs)
  case Nil
  then show ?case by (simp add: add_row_def price_of_def price_step_def)
next
  case (Cons e es)
  then show ?case
    by (auto simp: add_row_def price_of_def price_step_def same_key_iff split: option.splits if_splits)
qed

lemma price_of_fold:
  "price_of k (foldl (\<lambda>acc row. add_row row acc) acc rows) = foldl (price_step k) (price_of k acc) rows"
  by (induction rows arbitrary: acc) (simp_all add: price_of_add_row)

lemma price_step_fold_single:
  assumes "\<forall>r \<in> set rows. row_key r = k \<longrightarrow> price r = None \<or> price r = Some p"
    and "s = None \<or> s = Some None \<or> s = Some (Some p)"
    and "s = Some (Some p) \<or> (\<exists>r \<in> set rows. row_key r = k \<and> price r = Some p)"
  shows "foldl (price_step k) s rows = Some (Some p)"
  using assms
proof (induction rows arbitrary: s)
  case Nil
  then show ?case by simp
next
  case (Cons r rows)
  have "foldl (price_step k) (price_step k s r) rows = Some (Some p)"
  proof (rule Cons.IH)
    show "\<forall>r \<in> set rows. row_key r = k \<longrightarrow> price r = None \<or> price r = Some p"
      using Cons.prems(1) by simp
    show "price_step k s r = None \<or> price_step k s r = Some None \<or> price_step k s r = Some (Some p)"
      using Cons.prems(1,2) by (auto simp: price_step_def)
    show "price_step k s r = Some (Some p) \<or> (\<exists>r \<in> set rows. row_key r = k \<and> price r = Some p)"
      using Cons.prems(2,3) by (auto simp: price_step_def)
  qed
  then show ?case by simp
qed

lemma find_distinct_filter:
  "distinct (map f xs) \<Longrightarrow> find (\<lambda>r. f r = k) xs = Some r \<Longrightarrow> filter (\<lambda>r. f r = k) xs = [r]"
proof (induction xs)
  case Nil
  then show ?case by simp
next
  case (Cons x xs)
  show ?case
  proof (cases "f x = k")
    case True
    from True Cons.prems(2) have "x = r" by simp
    from Cons.prems(1) have "f x \<notin> f ` set xs" by simp
    with True have "\<forall>y \<in> set xs. f y \<noteq> k" by blast
    with \<open>x = r\<close> True show ?thesis by (simp add: filter_empty_conv)
  next
    case False
    with Cons show ?thesis by simp
  qed
qed

text \<open>
  C2, as the claim states it, fails. In the text below the third and the fourth line
  parse to rows with one key, the third without a price and the fourth with the price
  20; the merged row has the price 10 of the second line, which came first: a price,
  once present, is never overwritten.
\<close>

theorem merged_price_counterexample:
  "parsed_rows ''FISH PRODUCTS\<newline>Bangus 10.00\<newline>Bangus -\<newline>Bangus 20.00'' =
     [\<lparr>category = ''FISH PRODUCTS'', commodity = ''Bangus'', origin = Some ''Local'', unit = None, price = Some 10\<rparr>,
      \<lparr>category = ''FISH PRODUCTS'', commodity = ''Bangus'', origin = Some ''Local'', unit = None, price = None\<rparr>,
      \<lparr>category = ''FISH PRODUCTS'', commodity = ''Bangus'', origin = Some ''Local'', unit = None, price = Some 20\<rparr>] \<and>
   price_data (parse_text_to_json ''FISH PRODUCTS\<newline>Bangus 10.00\<newline>Bangus -\<newline>Bangus 20.00'') =
     [\<lparr>category = ''FISH PRODUCTS'', commodity = ''Bangus'', origin = Some ''Local'', unit = None, price = Some 10\<rparr>]"
  by code_simp

text \<open>
  C2, amended. If two lines parse to rows with the same key, one of them with a price
  and the other without, and no other line parses to a row of that key with a price,
  then the result has exactly one row of that key and its price is that of the priced
  line, whichever of the two lines comes first.
\<close>

theorem merged_price_single_present:
  assumes i: "i < length (parsed_rows raw_text)" and j: "j < length (parsed_rows raw_text)"
    and key: "row_key (parsed_rows raw_text ! i) = row_key (parsed_rows raw_text ! j)"
    and pi: "price (parsed_rows raw_text ! i) = Some p"
    and pj: "price (parsed_rows raw_text ! j) = None"
    and others: "\<forall>m < length (parsed_rows raw_text). m \<noteq> i \<and> m \<noteq> j \<and>
        row_key (parsed_rows raw_text ! m) = row_key (parsed_rows raw_text ! i) \<longrightarrow>
        price (parsed_rows raw_text ! m) = None"
  shows "\<exists>r. filter (\<lambda>r. row_key r = row_key (parsed_rows raw_text ! i))
               (price_data (parse_text_to_json raw_text)) = [r] \<and> price r = Some p"
proof -
  define rows where "rows = parsed_rows raw_text"
  define k where "k = row_key (rows ! i)"
  have res: "price_data (parse_text_to_json raw_text) = foldl (\<lambda>acc row. add_row row acc) [] rows"
  proof -
    have "price_data (parse_text_to_json raw_text) =
          price_data_list (process_lines initial_state (split_on (CHR 0x0A) raw_text))"
      by (simp add: parse_text_to_json_def Let_def)
    also have "\<dots> = foldl (\<lambda>acc row. add_row row acc) (price_data_list initial_state)
         (parsed_rows_from (current_category initial_state) (split_on (CHR 0x0A) raw_text))"
      by (rule parsed_rows_agree)
    also have "\<dots> = foldl (\<lambda>acc row. add_row row acc) [] rows"
      unfolding rows_def parsed_rows_def by (simp add: initial_state_def)
    finally show ?thesis .
  qed
  have pi': "price (rows ! i) = Some p" and pj': "price (rows ! j) = None"
    using pi pj by (simp_all add: rows_def)
  have others': "price (rows ! m) = None"
    if "m < length rows" "m \<noteq> i" "m \<noteq> j" "row_key (rows ! m) = k" for m
    using others that by (simp add: rows_def k_def)
  have all: "\<forall>r \<in> set rows. row_key r = k \<longrightarrow> price r = None \<or> price r = Some p"
  proof (intro ballI impI)
    fix r assume "r \<in> set rows" and rk: "row_key r = k"
    then obtain m where m: "m < length rows" "rows ! m = r" by (auto simp: in_set_conv_nth)
    consider "m = i" | "m = j" | "m \<noteq> i" "m \<noteq> j" by blast
    then show "price r = None \<or> price r = Some p"
    proof cases
      case 1
      with m pi' show ?thesis by simp
    next
      case 2
      with m pj' show ?thesis by simp
    next
      case 3
      with m rk others'[of m] show ?thesis by simp
    qed
  qed
  have "rows ! i \<in> set rows" using i by (simp add: rows_def)
  with pi' have ex: "\<exists>r \<in> set rows. row_key r = k \<and> price r = Some p"
    unfolding k_def by blast
  have "price_of k (price_data (parse_text_to_json raw_text)) = Some (Some p)"
    unfolding res price_of_fold
    by (rule price_step_fold_single[OF all]) (use ex in \<open>auto simp: price_of_def\<close>)
  then obtain r where f: "find (\<lambda>r. row_key r = k) (price_data (parse_text_to_json raw_text)) = Some r"
    and pr: "price r = Some p"
    by (auto simp: price_of_def)
  from find_distinct_filter[OF result_keys_distinct f] pr
  show ?thesis unfolding k_def rows_def by blast
qed

lemma bangus_rows:
  "parsed_rows ''FISH PRODUCTS\<newline>Bangus -\<newline>Bangus 10.00'' =
     [\<lparr>category = ''FISH PRODUCTS'', commodity = ''Bangus'', origin = Some ''Local'',
        unit = None, price = None\<rparr>,
      \<lparr>category = ''FISH PRODUCTS'', commodity = ''Bangus'', origin = Some ''Local'',
        unit = None, price = Some 10\<rparr>]"
  "parsed_rows ''FISH PRODUCTS\<newline>Bangus 10.00\<newline>Bangus -'' =
     [\<lparr>category = ''FISH PRODUCTS'', commodity = ''Bangus'', origin = Some ''Local'',
        unit = None, price = Some 10\<rparr>,
      \<lparr>category = ''FISH PRODUCTS'', commodity = ''Bangus'', origin = Some ''Local'',
        unit = None, price = None\<rparr>]"
  by code_simp+

theorem merged_price_single_present_witness:
  "(\<exists>r. filter (\<lambda>r. row_key r = (''FISH PRODUCTS'', ''Bangus'', Some ''Local''))
          (price_data (parse_text_to_json ''FISH PRODUCTS\<newline>Bangus -\<newline>Bangus 10.00'')) = [r] \<and>
        price r = Some 10) \<and>
   (\<exists>r. filter (\<lambda>r. row_key r = (''FISH PRODUCTS'', ''Bangus'', Some ''Local''))
          (price_data (parse_text_to_json ''FISH PRODUCTS\<newline>Bangus 10.00\<newline>Bangus -'')) = [r] \<and>
        price r = Some 10)"
proof -
  let ?t = "''FISH PRODUCTS\<newline>Bangus -\<newline>Bangus 10.00''"
  let ?u = "''FISH PRODUCTS\<newline>Bangus 10.00\<newline>Bangus -''"
  have kt: "row_key (parsed_rows ?t ! 1) = (''FISH PRODUCTS'', ''Bangus'', Some ''Local'')"
    by (simp add: bangus_rows(1) row_key_def)
  have ku: "row_key (parsed_rows ?u ! 0) = (''FISH PRODUCTS'', ''Bangus'', Some ''Local'')"
    by (simp add: bangus_rows(2) row_key_def)
  have "\<exists>r. filter (\<lambda>r. row_key r = row_key (parsed_rows ?t ! 1))
               (price_data (parse_text_to_json ?t)) = [r] \<and> price r = Some 10"
  proof (rule merged_price_single_present[where j = 0])
    show "1 < length (parsed_rows ?t)" by (simp add: bangus_rows(1))
    show "0 < length (parsed_rows ?t)" by (simp add: bangus_rows(1))
    show "row_key (parsed_rows ?t ! 1) = row_key (parsed_rows ?t ! 0)"
      by (simp add: bangus_rows(1) row_key_def)
    show "price (parsed_rows ?t ! 1) = Some 10" by (simp add: bangus_rows(1))
    show "price (parsed_rows ?t ! 0) = None" by (simp add: bangus_rows(1))
    show "\<forall>m < length (parsed_rows ?t). m \<noteq> 1 \<and> m \<noteq> 0 \<and>
        row_key (parsed_rows ?t ! m) = row_key (parsed_rows ?t ! 1) \<longrightarrow>
        price (parsed_rows ?t ! m) = None"
      by (auto simp: bangus_rows(1) less_Suc_eq)
  qed
  then have first: "\<exists>r. filter (\<lambda>r. row_key r = (''FISH PRODUCTS'', ''Bangus'', Some ''Local''))
          (price_data (parse_text_to_json ?t)) = [r] \<and> price r = Some 10"
    unfolding kt .
  have "\<exists>r. filter (\<lambda>r. row_key r = row_key (parsed_rows ?u ! 0))
               (price_data (parse_text_to_json ?u)) = [r] \<and> price r = Some 10"
  proof (rule merged_price_single_present[where j = 1])
    show "0 < length (parsed_rows ?u)" by (simp add: bangus_rows(2))
    show "1 < length (parsed_rows ?u)" by (simp add: bangus_rows(2))
    show "row_key (parsed_rows ?u ! 0) = row_key (parsed_rows ?u ! 1)"
      by (simp add: bangus_rows(2) row_key_def)
    show "price (parsed_rows ?u ! 0) = Some 10" by (simp add: bangus_rows(2))
    show "price (parsed_rows ?u ! 1) = None" by (simp add: bangus_rows(2))
    show "\<forall>m < length (parsed_rows ?u). m \<noteq> 0 \<and> m \<noteq> 1 \<and>
        row_key (parsed_rows ?u ! m) = row_key (parsed_rows ?u ! 0) \<longrightarrow>
        price (parsed_rows ?u ! m) = None"
      by (auto simp: bangus_rows(2) less_Suc_eq)
  qed
  then have second: "\<exists>r. filter (\<lambda>r. row_key r = (''FISH PRODUCTS'', ''Bangus'', Some ''Local''))
          (price_data (parse_text_to_json ?u)) = [r] \<and> price r = Some 10"
    unfolding ku .
  from first second show ?thesis by (rule conjI)
qed

section \<open>The row parser\<close>

lemma parse_smart_row_unfold:
  "parse_smart_row line cat =
     (case price_token_of line of
        None \<Rightarrow> None
      | Some token \<Rightarrow>
          if length (normalize_commodity_name (raw_name_segment line) cat) < 2 then None
          else Some \<lparr>category = stored_category cat,
                      commodity = normalize_commodity_name (raw_name_segment line) cat,
                      origin = Some (determine_origin (raw_name_segment line) cat),
                      unit = determine_unit (raw_name_segment line) cat,
                      price = convert_price (replace '','' [] token)\<rparr>)"
  by (auto simp: parse_smart_row_def price_token_of_def raw_name_segment_def stored_category_def Let_def
           split: option.splits)

subsection \<open>Scenario A\<close>

text \<open>
  C3, as the claim states it, fails in the unit. With the header
  \<^verbatim>\<open>LOCAL COMMERCIAL RICE\<close> active the loop makes one row of the input, and the
  unit of that row is absent, not \<^verbatim>\<open>kg\<close>: the name segment
  \<^verbatim>\<open>Well Milled Rice\<close> contains none of the keywords of
  \<^verbatim>\<open>determine_unit\<close>, whose list has no entry for rice.
\<close>

theorem scenario_a_unit_counterexample:
  "unit (hd (price_data_list (process_lines
      \<lparr>current_category = ''LOCAL COMMERCIAL RICE'', price_data_list = []\<rparr>
      (split_on (CHR 0x0A) ''RICE\<newline>Well Milled Rice 45.50\<newline>'')))) \<noteq> Some ''kg''"
  by code_simp

text \<open>
  C3, amended. With the header \<^verbatim>\<open>LOCAL COMMERCIAL RICE\<close> active, the input
  \<^verbatim>\<open>"RICE\nWell Milled Rice 45.50\n"\<close> produces exactly one row: category
  \<^verbatim>\<open>COMMERCIAL RICE\<close>, commodity \<^verbatim>\<open>Well Milled Rice\<close>, origin
  \<^verbatim>\<open>Local\<close>, no unit, price 45.50. The header is active either as the state
  the loop starts in or as a line of its own before the input.
\<close>

theorem scenario_a_row:
  "price_data_list (process_lines
      \<lparr>current_category = ''LOCAL COMMERCIAL RICE'', price_data_list = []\<rparr>
      (split_on (CHR 0x0A) ''RICE\<newline>Well Milled Rice 45.50\<newline>'')) =
     [\<lparr>category = ''COMMERCIAL RICE'', commodity = ''Well Milled Rice'', origin = Some ''Local'',
        unit = None, price = Some (4550 / 100)\<rparr>] \<and>
   price_data (parse_text_to_json
      ''LOCAL COMMERCIAL RICE\<newline>RICE\<newline>Well Milled Rice 45.50\<newline>'') =
     [\<lparr>category = ''COMMERCIAL RICE'', commodity = ''Well Milled Rice'', origin = Some ''Local'',
        unit = None, price = Some (4550 / 100)\<rparr>]"
  by code_simp

subsection \<open>Sentinel prices\<close>

lemma replace_dash: "replace '','' [] ''-'' = ''-''"
  by code_simp

lemma replace_na: "replace '','' [] ''$n/a$'' = ''$n/a$''"
  by code_simp

lemma convert_price_sentinel:
  "convert_price ''-'' = None" "convert_price ''$n/a$'' = None"
  by (simp_all add: convert_price_def)

text \<open>
  C4, as the claim states it, fails: a line can end in a sentinel and still yield no
  row. The price token of \<^verbatim>\<open>A -\<close> is the bare dash, and the parser returns
  nothing for the line, because the name before the dash has a single character.
\<close>

theorem sentinel_short_name_counterexample:
  "price_token_of ''A -'' = Some ''-'' \<and> parse_smart_row ''A -'' ''FRUITS'' = None"
  by code_simp

text \<open>
  C4, amended. For every line whose price token is the bare dash or the no-data marker,
  the parser returns nothing when the normalized name has fewer than two characters,
  and otherwise returns a row whose price is absent; it has no other outcome, so a
  sentinel is never an error and never by itself the reason a row is dropped.
\<close>

theorem sentinel_price_absent:
  assumes "price_token_of line = Some ''-'' \<or> price_token_of line = Some ''$n/a$''"
  shows "parse_smart_row line cat =
     (if length (normalize_commodity_name (raw_name_segment line) cat) < 2 then None
      else Some \<lparr>category = stored_category cat,
                  commodity = normalize_commodity_name (raw_name_segment line) cat,
                  origin = Some (determine_origin (raw_name_segment line) cat),
                  unit = determine_unit (raw_name_segment line) cat,
                  price = None\<rparr>)"
  unfolding parse_smart_row_unfold
  using assms by (auto simp: replace_dash replace_na convert_price_sentinel)

lemma mango_line:
  "price_token_of ''Mango $n/a$'' = Some ''$n/a$''"
  "normalize_commodity_name (raw_name_segment ''Mango $n/a$'') ''FRUITS'' = ''Mango''"
  "determine_origin (raw_name_segment ''Mango $n/a$'') ''FRUITS'' = ''Local''"
  "determine_unit (raw_name_segment ''Mango $n/a$'') ''FRUITS'' = None"
  "stored_category ''FRUITS'' = ''FRUITS''"
  by code_simp+

theorem sentinel_price_absent_witness:
  "price_token_of ''Mango $n/a$'' = Some ''$n/a$'' \<and>
   parse_smart_row ''Mango $n/a$'' ''FRUITS'' =
     Some \<lparr>category = ''FRUITS'', commodity = ''Mango'', origin = Some ''Local'',
            unit = None, price = None\<rparr>"
proof -
  have "price_token_of ''Mango $n/a$'' = Some ''-'' \<or> price_token_of ''Mango $n/a$'' = Some ''$n/a$''"
    by (simp add: mango_line)
  from sentinel_price_absent[OF this, of "''FRUITS''"] show ?thesis
    by (simp add: mango_line)
qed

subsection \<open>Origin\<close>

lemma char_eq_code: "c = d \<longleftrightarrow> code c = code d"
  by (simp add: code_def)

lemma code_char_of: "n < 256 \<Longrightarrow> code (char_of n) = n"
  by (simp add: code_def)

lemma code_less: "code c < 256"
  by (simp add: code_def)

lemma upper_char_single:
  assumes "ascii_upper X"
  shows "upper_char c = [X] \<longleftrightarrow> code c = code X \<or> code c = code X + 32"
proof -
  have lt: "code c < 256" by (rule code_less)
  show ?thesis
    using assms lt unfolding upper_char_def Let_def ascii_upper_def
    by (auto simp: char_eq_code code_char_of)
qed

lemma upper_char_cases:
  "upper_char c = ''SS'' \<and> code c = 223 \<or> (\<exists>u. upper_char c = [u])"
  by (auto simp: upper_char_def Let_def)

lemma lower_char_eq:
  assumes "ascii_upper X"
  shows "lower_char c = lower_char X \<longleftrightarrow> code c = code X \<or> code c = code X + 32"
proof -
  have lt: "code c < 256" by (rule code_less)
  show ?thesis
    using assms lt unfolding lower_char_def Let_def ascii_upper_def
    by (auto simp: char_eq_code code_char_of)
qed

text \<open>
  Upper-casing the text and looking for an upper-case ASCII keyword finds what
  lower-casing both finds, as long as the keyword has no \<^verbatim>\<open>S\<close>: the only
  character whose upper case is not a single character is the sharp s, which becomes
  \<^verbatim>\<open>SS\<close>.
\<close>

lemma starts_with_upper_lower:
  assumes "list_all (\<lambda>X. ascii_upper X \<and> X \<noteq> CHR ''S'') K"
  shows "starts_with K (upper s) \<longleftrightarrow> starts_with (lower K) (lower s)"
  using assms
proof (induction K arbitrary: s)
  case Nil
  then show ?case by (simp add: lower_def)
next
  case (Cons X K)
  then have X: "ascii_upper X" "X \<noteq> CHR ''S''"
    and K: "list_all (\<lambda>X. ascii_upper X \<and> X \<noteq> CHR ''S'') K"
    by simp_all
  show ?case
  proof (cases s)
    case Nil
    then show ?thesis by (simp add: lower_def upper_def)
  next
    case (Cons c cs)
    from upper_char_cases[of c] show ?thesis
    proof (elim disjE conjE exE)
      assume ss: "upper_char c = ''SS''" and c: "code c = 223"
      have "lower_char c \<noteq> lower_char X"
        using X(1) c by (simp add: lower_char_eq ascii_upper_def)
      with ss X(2) Cons show ?thesis by (auto simp: lower_def upper_def)
    next
      fix u assume u: "upper_char c = [u]"
      have "u = X \<longleftrightarrow> lower_char c = lower_char X"
        using upper_char_single[OF X(1), of c] lower_char_eq[OF X(1), of c] u by auto
      moreover have "starts_with K (upper cs) \<longleftrightarrow> starts_with (lower K) (lower cs)"
        by (rule Cons.IH[OF K])
      ultimately show ?thesis using u Cons by (auto simp: lower_def upper_def)
    qed
  qed
qed

lemma py_in_upper_lower:
  assumes "list_all (\<lambda>X. ascii_upper X \<and> X \<noteq> CHR ''S'') K" and "K \<noteq> []"
  shows "py_in K (upper s) \<longleftrightarrow> py_in (lower K) (lower s)"
proof (induction s)
  case Nil
  with assms(2) show ?case by (simp add: lower_def upper_def)
next
  case (Cons c cs)
  obtain X K' where K: "K = X # K'" using assms(2) by (cases K) auto
  with assms(1) have X: "ascii_upper X" "X \<noteq> CHR ''S''" by simp_all
  have sw: "starts_with K (upper (c # cs)) \<longleftrightarrow> starts_with (lower K) (lower (c # cs))"
    by (rule starts_with_upper_lower[OF assms(1)])
  have tl: "py_in K (upper cs) \<longleftrightarrow> py_in (lower K) (lower cs)" by (rule Cons.IH)
  have low: "py_in (lower K) (lower (c # cs)) \<longleftrightarrow>
        starts_with (lower K) (lower (c # cs)) \<or> py_in (lower K) (lower cs)"
    by (simp add: lower_def)
  from upper_char_cases[of c] show ?case
  proof (elim disjE conjE exE)
    assume ss: "upper_char c = ''SS''" and c: "code c = 223"
    have up: "upper (c # cs) = CHR ''S'' # CHR ''S'' # upper cs"
      using ss by (simp add: upper_def)
    have "\<not> starts_with K (upper (c # cs))" using X(2) K up by auto
    moreover have "\<not> starts_with K (CHR ''S'' # upper cs)" using X(2) K by auto
    ultimately have "py_in K (upper (c # cs)) \<longleftrightarrow> py_in K (upper cs)"
      unfolding up by simp
    moreover have "\<not> starts_with (lower K) (lower (c # cs))"
      using sw \<open>\<not> starts_with K (upper (c # cs))\<close> by simp
    ultimately show ?thesis using low tl by simp
  next
    fix u assume u: "upper_char c = [u]"
    then have up: "upper (c # cs) = u # upper cs" by (simp add: upper_def)
    have "py_in K (upper (c # cs)) \<longleftrightarrow> starts_with K (upper (c # cs)) \<or> py_in K (upper cs)"
      unfolding up by simp
    with sw tl low show ?thesis by simp
  qed
qed

lemma imported_any_case: "py_in ''IMPORTED'' (upper s) \<longleftrightarrow> mentions_imported s"
proof -
  have "list_all (\<lambda>X. ascii_upper X \<and> X \<noteq> CHR ''S'') ''IMPORTED''"
    by (simp add: ascii_upper_def code_def)
  from py_in_upper_lower[OF this, of s]
  have "py_in ''IMPORTED'' (upper s) \<longleftrightarrow> py_in (lower ''IMPORTED'') (lower s)"
    by simp
  moreover have "lower ''IMPORTED'' = lower ''Imported''" by code_simp
  ultimately show ?thesis by (simp add: mentions_imported_def)
qed

lemma determine_origin_any_case:
  "determine_origin raw_line cat =
     (if mentions_imported raw_line \<or> mentions_imported cat then ''Imported'' else ''Local'')"
  by (simp add: determine_origin_def Let_def imported_any_case)

text \<open>
  C5. Every row the parser returns has its origin set: to \<^verbatim>\<open>Imported\<close> if the
  raw name segment or the category label contains the keyword Imported in any mix of
  upper and lower case, and to \<^verbatim>\<open>Local\<close> otherwise. So a line with no such
  marker in itself or in its category gets \<^verbatim>\<open>Local\<close>, and the origin is never
  left unset.
\<close>

theorem origin_imported_or_local:
  assumes "parse_smart_row line cat = Some row"
  shows "origin row =
           Some (if mentions_imported (raw_name_segment line) \<or> mentions_imported cat
                 then ''Imported'' else ''Local'')"
proof (cases "price_token_of line")
  case None
  with assms show ?thesis by (simp add: parse_smart_row_unfold)
next
  case (Some token)
  show ?thesis
  proof (cases "length (normalize_commodity_name (raw_name_segment line) cat) < 2")
    case True
    with assms Some show ?thesis by (simp add: parse_smart_row_unfold)
  next
    case False
    with assms Some have "origin row = Some (determine_origin (raw_name_segment line) cat)"
      by (auto simp: parse_smart_row_unfold)
    then show ?thesis by (simp only: determine_origin_any_case)
  qed
qed

lemma origin_lines:
  "parse_smart_row ''imported Bangus 10.00'' ''FISH PRODUCTS'' =
     Some \<lparr>category = ''FISH PRODUCTS'', commodity = ''Bangus'', origin = Some ''Imported'',
            unit = None, price = Some 10\<rparr>"
  "mentions_imported (raw_name_segment ''imported Bangus 10.00'')"
  "parse_smart_row ''Tilapia 9.50'' ''FISH PRODUCTS'' =
     Some \<lparr>category = ''FISH PRODUCTS'', commodity = ''Tilapia'', origin = Some ''Local'',
            unit = None, price = Some (19 / 2)\<rparr>"
  "\<not> mentions_imported (raw_name_segment ''Tilapia 9.50'')"
  "\<not> mentions_imported ''FISH PRODUCTS''"
  by code_simp+

theorem origin_imported_or_local_witness:
  "mentions_imported (raw_name_segment ''imported Bangus 10.00'') \<and>
   origin \<lparr>category = ''FISH PRODUCTS'', commodity = ''Bangus'', origin = Some ''Imported'',
            unit = None, price = Some (10 :: rat)\<rparr> = Some ''Imported'' \<and>
   \<not> mentions_imported (raw_name_segment ''Tilapia 9.50'') \<and>
   \<not> mentions_imported ''FISH PRODUCTS'' \<and>
   origin \<lparr>category = ''FISH PRODUCTS'', commodity = ''Tilapia'', origin = Some ''Local'',
            unit = None, price = Some (19 / 2 :: rat)\<rparr> = Some ''Local''"
proof -
  from origin_imported_or_local[OF origin_lines(1)] origin_lines(2)
  have a: "origin \<lparr>category = ''FISH PRODUCTS'', commodity = ''Bangus'', origin = Some ''Imported'',
            unit = None, price = Some (10 :: rat)\<rparr> = Some ''Imported''"
    by (simp only: if_True simp_thms)
  from origin_imported_or_local[OF origin_lines(3)] origin_lines(4,5)
  have b: "origin \<lparr>category = ''FISH PRODUCTS'', commodity = ''Tilapia'', origin = Some ''Local'',
            unit = None, price = Some (19 / 2 :: rat)\<rparr> = Some ''Local''"
    by (simp only: if_False simp_thms)
  from a b origin_lines(2,4,5) show ?thesis by blast
qed

subsection \<open>The two-character rule for names\<close>

lemma merge_scan_commodity:
  "merge_scan row xs = Some ys \<Longrightarrow> \<forall>r \<in> set xs. 2 \<le> length (commodity r) \<Longrightarrow>
   \<forall>r \<in> set ys. 2 \<le> length (commodity r)"
  by (induction xs arbitrary: ys) (auto split: if_splits)

lemma add_row_commodity:
  assumes old: "\<forall>r \<in> set xs. 2 \<le> length (commodity r)" and new: "2 \<le> length (commodity row)"
  shows "\<forall>r \<in> set (add_row row xs). 2 \<le> length (commodity r)"
proof (cases "merge_scan row xs")
  case None
  with old new show ?thesis by (simp add: add_row_def)
next
  case (Some ys)
  from merge_scan_commodity[OF Some old] Some show ?thesis by (simp add: add_row_def)
qed

lemma parse_smart_row_commodity:
  assumes "parse_smart_row line cat = Some row"
  shows "commodity row = normalize_commodity_name (raw_name_segment line) cat \<and>
         2 \<le> length (commodity row)"
proof (cases "price_token_of line")
  case None
  with assms show ?thesis by (simp add: parse_smart_row_unfold)
next
  case (Some token)
  show ?thesis
  proof (cases "length (normalize_commodity_name (raw_name_segment line) cat) < 2")
    case True
    with assms Some show ?thesis by (simp add: parse_smart_row_unfold)
  next
    case False
    with assms Some
    have "commodity row = normalize_commodity_name (raw_name_segment line) cat"
      by (auto simp: parse_smart_row_unfold)
    with False show ?thesis by simp
  qed
qed

lemma process_line_cases:
  "process_line st line = st \<or>
   (\<exists>cat. process_line st line = st\<lparr>current_category := cat\<rparr>) \<or>
   (\<exists>row. parse_smart_row (strip line) (current_category st) = Some row \<and>
      process_line st line = st\<lparr>price_data_list := add_row row (price_data_list st)\<rparr>)"
  by (auto simp: process_line_def Let_def split: option.splits)

lemma process_line_commodity:
  assumes "\<forall>r \<in> set (price_data_list st). 2 \<le> length (commodity r)"
  shows "\<forall>r \<in> set (price_data_list (process_line st line)). 2 \<le> length (commodity r)"
proof -
  consider "process_line st line = st"
    | cat where "process_line st line = st\<lparr>current_category := cat\<rparr>"
    | row where "parse_smart_row (strip line) (current_category st) = Some row"
        "process_line st line = st\<lparr>price_data_list := add_row row (price_data_list st)\<rparr>"
    using process_line_cases[of st line] by blast
  then show ?thesis
  proof cases
    case 1
    with assms show ?thesis by simp
  next
    case 2
    with assms show ?thesis by simp
  next
    case 3
    from parse_smart_row_commodity[OF 3(1)] have "2 \<le> length (commodity row)" by blast
    from add_row_commodity[OF assms this] 3(2) show ?thesis by simp
  qed
qed

lemma process_lines_commodity:
  "\<forall>r \<in> set (price_data_list st). 2 \<le> length (commodity r) \<Longrightarrow>
   \<forall>r \<in> set (price_data_list (process_lines st ls)). 2 \<le> length (commodity r)"
  unfolding process_lines_def
proof (induction ls arbitrary: st)
  case Nil
  then show ?case by simp
next
  case (Cons l ls)
  from process_line_commodity[OF Cons.prems]
  have "\<forall>r\<in>set (price_data_list (process_line st l)). 2 \<le> length (commodity r)" .
  from Cons.IH[OF this] show ?case by simp
qed

text \<open>
  C8. Every row of \<^verbatim>\<open>price_data\<close> has a commodity name of at least two
  characters; the commodity of a row the parser returns is the normalized name of the
  line's raw name segment; and when that normalized name has fewer than two characters
  the parser returns nothing for the line.
\<close>

theorem commodity_at_least_two:
  "(\<forall>row \<in> set (price_data (parse_text_to_json raw_text)). 2 \<le> length (commodity row)) \<and>
   (\<forall>row. parse_smart_row line cat = Some row \<longrightarrow>
      commodity row = normalize_commodity_name (raw_name_segment line) cat \<and>
      2 \<le> length (commodity row)) \<and>
   (length (normalize_commodity_name (raw_name_segment line) cat) < 2 \<longrightarrow>
      parse_smart_row line cat = None)"
proof -
  have "\<forall>r \<in> set (price_data_list initial_state). 2 \<le> length (commodity r)"
    by (simp add: initial_state_def)
  from process_lines_commodity[OF this, of "split_on (CHR 0x0A) raw_text"]
  have "\<forall>row \<in> set (price_data (parse_text_to_json raw_text)). 2 \<le> length (commodity row)"
    by (simp add: parse_text_to_json_def Let_def)
  moreover have "length (normalize_commodity_name (raw_name_segment line) cat) < 2 \<longrightarrow>
      parse_smart_row line cat = None"
    by (simp add: parse_smart_row_unfold split: option.splits)
  moreover have "\<forall>row. parse_smart_row line cat = Some row \<longrightarrow>
      commodity row = normalize_commodity_name (raw_name_segment line) cat \<and>
      2 \<le> length (commodity row)"
    using parse_smart_row_commodity by blast
  ultimately show ?thesis by (intro conjI)
qed

lemma short_name_line:
  "normalize_commodity_name (raw_name_segment ''(large) 5 kg 120.00'') ''FRUITS'' = []"
  by code_simp

theorem commodity_at_least_two_witness:
  "2 \<le> length (commodity (hd (price_data (parse_text_to_json
      ''FISH PRODUCTS\<newline>Bangus -\<newline>Tilapia 9.50\<newline>Bangus 10.00'')))) \<and>
   length (normalize_commodity_name (raw_name_segment ''(large) 5 kg 120.00'') ''FRUITS'') < 2 \<and>
   parse_smart_row ''(large) 5 kg 120.00'' ''FRUITS'' = None"
proof -
  note inst = commodity_at_least_two
    [of "''FISH PRODUCTS\<newline>Bangus -\<newline>Tilapia 9.50\<newline>Bangus 10.00''"
        "''(large) 5 kg 120.00''" "''FRUITS''"]
  have mem: "hd (price_data (parse_text_to_json
      ''FISH PRODUCTS\<newline>Bangus -\<newline>Tilapia 9.50\<newline>Bangus 10.00'')) \<in>
      set (price_data (parse_text_to_json
      ''FISH PRODUCTS\<newline>Bangus -\<newline>Tilapia 9.50\<newline>Bangus 10.00''))"
    by (simp add: fish_text_result)
  have short: "length (normalize_commodity_name (raw_name_segment ''(large) 5 kg 120.00'') ''FRUITS'') < 2"
    by (simp add: short_name_line)
  from inst mem short show ?thesis by blast
qed

section \<open>Noise lines\<close>

text \<open>
  C7, as the claim states it, fails: the loop looks for a category label before it
  looks for a noise marker. The line below contains the noise marker
  \<^verbatim>\<open>Source:\<close> and the label \<^verbatim>\<open>FISH PRODUCTS\<close>; it is taken as a header,
  and the current category changes from \<^verbatim>\<open>SPICES\<close> to that label.
\<close>

theorem noise_line_header_counterexample:
  "strip ''Source: FISH PRODUCTS survey'' \<noteq> [] \<and>
   is_noise (strip ''Source: FISH PRODUCTS survey'') \<and>
   current_category (process_line \<lparr>current_category = ''SPICES'', price_data_list = []\<rparr>
      ''Source: FISH PRODUCTS survey'') = ''FISH PRODUCTS''"
  by code_simp

text \<open>
  C7, amended. A non-empty line that matches a noise marker never produces a row. If
  it contains no category label, it leaves the whole state as it was, the current
  category included; if it contains one, it is consumed as a header and the current
  category becomes that label.
\<close>

theorem noise_line_dropped:
  assumes "strip line \<noteq> []" and "is_noise (strip line)"
  shows "price_data_list (process_line st line) = price_data_list st \<and>
         (detect_category (strip line) = None \<longrightarrow> process_line st line = st) \<and>
         (\<forall>cat. detect_category (strip line) = Some cat \<longrightarrow>
            current_category (process_line st line) = cat)"
  using assms by (simp add: process_line_def Let_def split: option.splits)

lemma page_line:
  "strip ''Page 2 of 5'' \<noteq> []" "is_noise (strip ''Page 2 of 5'')"
  "detect_category (strip ''Page 2 of 5'') = None"
  by code_simp+

theorem noise_line_dropped_witness:
  "strip ''Page 2 of 5'' \<noteq> [] \<and> is_noise (strip ''Page 2 of 5'') \<and>
   detect_category (strip ''Page 2 of 5'') = None \<and>
   process_line \<lparr>current_category = ''SPICES'', price_data_list = []\<rparr> ''Page 2 of 5'' =
     \<lparr>current_category = ''SPICES'', price_data_list = []\<rparr>"
proof -
  from noise_line_dropped[OF page_line(1,2), of "\<lparr>current_category = ''SPICES'', price_data_list = []\<rparr>"]
    page_line(3)
  have "process_line \<lparr>current_category = ''SPICES'', price_data_list = []\<rparr> ''Page 2 of 5'' =
     \<lparr>current_category = ''SPICES'', price_data_list = []\<rparr>"
    by blast
  with page_line show ?thesis by blast
qed

section \<open>The price token and its conversion\<close>

text \<open>
  Whatever the matcher lets a pattern consume is a word of the pattern; so the group of
  a successful search is a word of the group's pattern.
\<close>

lemma ms_sound:
  "cur' \<in> set (ms r cur) \<Longrightarrow> \<exists>w. snd cur = w @ snd cur' \<and> rx_lang r w"
proof (induction r cur arbitrary: cur' rule: ms.induct)
  case (1 p prev s)
  then show ?case by (auto split: list.splits if_splits intro: rx_lang.Sym)
next
  case (2 cur)
  then show ?case by (auto intro: rx_lang.Eps)
next
  case (3 a b cur)
  from "3.prems" obtain mid where mid: "mid \<in> set (ms a cur)" and c: "cur' \<in> set (ms b mid)"
    by auto
  from "3.IH"(1)[OF mid] obtain u where u: "snd cur = u @ snd mid" "rx_lang a u" by blast
  from "3.IH"(2)[OF mid c] obtain v where v: "snd mid = v @ snd cur'" "rx_lang b v" by blast
  have "snd cur = (u @ v) @ snd cur'" using u(1) v(1) by simp
  moreover have "rx_lang (Seq a b) (u @ v)" using u(2) v(2) by (rule rx_lang.Seq)
  ultimately show ?case by blast
next
  case (4 a b cur)
  from "4.prems" consider "cur' \<in> set (ms a cur)" | "cur' \<in> set (ms b cur)" by auto
  then show ?case
  proof cases
    case 1
    from "4.IH"(1)[OF 1] show ?thesis by (blast intro: rx_lang.AltL)
  next
    case 2
    from "4.IH"(2)[OF 2] show ?thesis by (blast intro: rx_lang.AltR)
  qed
next
  case (5 a cur)
  from "5.prems" ms.simps(5)[of a cur] have "cur' \<in> set (concat (map (\<lambda>c. if length (snd c) < length (snd cur)
                                  then ms (Star a) c else []) (ms a cur)) @ [cur])"
    by simp
  then consider "cur' = cur"
    | mid where "mid \<in> set (ms a cur)" "length (snd mid) < length (snd cur)" "cur' \<in> set (ms (Star a) mid)"
    by (auto split: if_splits)
  then show ?case
  proof cases
    case 1
    have "snd cur = [] @ snd cur'" using 1 by simp
    moreover have "rx_lang (Star a) []" by (rule rx_lang.StarNil)
    ultimately show ?thesis by blast
  next
    case 2
    from "5.IH"(1)[OF 2(1)] obtain u where u: "snd cur = u @ snd mid" "rx_lang a u" by blast
    from "5.IH"(2)[OF 2(1) 2(2) 2(3)] obtain v where v: "snd mid = v @ snd cur'" "rx_lang (Star a) v" by blast
    have "snd cur = (u @ v) @ snd cur'" using u(1) v(1) by simp
    moreover have "rx_lang (Star a) (u @ v)" using u(2) v(2) by (rule rx_lang.StarStep)
    ultimately show ?thesis by blast
  qed
next
  case (6 a cur)
  from "6.prems" ms.simps(6)[of a cur] have "cur' \<in> set (cur # concat (map (\<lambda>c. if length (snd c) < length (snd cur)
                                  then ms (Lazy a) c else []) (ms a cur)))"
    by simp
  then consider "cur' = cur"
    | mid where "mid \<in> set (ms a cur)" "length (snd mid) < length (snd cur)" "cur' \<in> set (ms (Lazy a) mid)"
    by (auto split: if_splits)
  then show ?case
  proof cases
    case 1
    have "snd cur = [] @ snd cur'" using 1 by simp
    moreover have "rx_lang (Lazy a) []" by (rule rx_lang.LazyNil)
    ultimately show ?thesis by blast
  next
    case 2
    from "6.IH"(1)[OF 2(1)] obtain u where u: "snd cur = u @ snd mid" "rx_lang a u" by blast
    from "6.IH"(2)[OF 2(1) 2(2) 2(3)] obtain v where v: "snd mid = v @ snd cur'" "rx_lang (Lazy a) v" by blast
    have "snd cur = (u @ v) @ snd cur'" using u(1) v(1) by simp
    moreover have "rx_lang (Lazy a) (u @ v)" using u(2) v(2) by (rule rx_lang.LazyStep)
    ultimately show ?thesis by blast
  qed
next
  case (7 prev s)
  then show ?case by (auto split: if_splits intro: rx_lang.Bol)
next
  case (8 prev s)
  then show ?case by (auto split: if_splits intro: rx_lang.Eol)
next
  case (9 prev s)
  then show ?case by (auto split: if_splits intro: rx_lang.Eos)
next
  case (10 prev s)
  then show ?case by (auto split: if_splits intro: rx_lang.Wordb)
qed

lemma match_group_sound:
  assumes "g \<in> set (match_group pre grp post cur)"
  shows "rx_lang grp g"
proof -
  from assms obtain c1 c2 where c2: "c2 \<in> set (ms grp c1)"
    and g: "g = take (length (snd c1) - length (snd c2)) (snd c1)"
    by (auto simp: match_group_def)
  from ms_sound[OF c2] obtain w where "snd c1 = w @ snd c2" "rx_lang grp w" by blast
  with g show ?thesis by simp
qed

lemma search_group_from_sound:
  "search_group_from pre grp post i prev s = Some (start, g) \<Longrightarrow> rx_lang grp g"
proof (induction s arbitrary: i prev)
  case Nil
  then show ?case
    by (auto split: list.splits intro: match_group_sound[of _ pre grp post "(prev, [])"])
next
  case (Cons c cs)
  show ?case
  proof (cases "match_group pre grp post (prev, c # cs)")
    case Nil
    with Cons.prems have "search_group_from pre grp post (Suc i) (Some c) cs = Some (start, g)" by simp
    then show ?thesis by (rule Cons.IH)
  next
    case (Cons g' gs)
    with Cons.prems have "g = g'" by simp
    with Cons have "g \<in> set (match_group pre grp post (prev, c # cs))" by simp
    then show ?thesis by (rule match_group_sound)
  qed
qed

lemma price_match_token:
  "price_match line = Some (start, token) \<Longrightarrow> rx_lang price_token token"
  unfolding price_match_def search_group_def by (rule search_group_from_sound)

lemma rx_lang_lit: "rx_lang (lit s) w \<Longrightarrow> w = s"
  by (induction s arbitrary: w) (auto simp: rx_lang_Seq rx_lang_Sym rx_lang_Eps chr_def)

lemma replace_char_filter: "replace [c] [] s = filter (\<lambda>x. x \<noteq> c) s"
proof (induction s)
  case Nil
  show ?case by (subst replace.simps) simp
next
  case (Cons a s)
  show ?case
  proof (cases "a = c")
    case True
    with Cons show ?thesis by (subst replace.simps) simp
  next
    case False
    with Cons show ?thesis by (subst replace.simps) simp
  qed
qed

lemma not_digit_comma: "\<not> is_digit (CHR '','')" "\<not> is_digit (CHR ''.'')"
  by (simp_all add: is_digit_def code_def)

lemma rx_lang_digit: "rx_lang digit w \<longleftrightarrow> (\<exists>d. w = [d] \<and> is_digit d)"
  by (auto simp: digit_def rx_lang_Sym)

lemma rx_lang_chr: "rx_lang (chr c) w \<longleftrightarrow> w = [c]"
  by (auto simp: chr_def rx_lang_Sym)

lemma thousands_groups:
  "rx_lang r w \<Longrightarrow> r = Star (Seq (chr CHR '','') (Seq digit (Seq digit digit))) \<Longrightarrow>
   list_all is_digit (filter (\<lambda>x. x \<noteq> CHR '','') w)"
proof (induction r w rule: rx_lang.induct)
  case (StarStep a u v)
  then show ?case by (auto simp: rx_lang_Seq rx_lang_digit rx_lang_chr)
qed simp_all

lemma price_number_shape:
  assumes "rx_lang price_number w"
  shows "\<exists>ip a b. filter (\<lambda>x. x \<noteq> CHR '','') w = ip @ [CHR ''.'', a, b] \<and> ip \<noteq> [] \<and>
           list_all is_digit ip \<and> is_digit a \<and> is_digit b"
proof -
  from assms obtain h g a b where w: "w = h @ g @ [CHR ''.'', a, b]"
    and h: "rx_lang (Seq digit (opt_rx (Seq digit (opt_rx digit)))) h"
    and g: "rx_lang (Star (Seq (chr CHR '','') (Seq digit (Seq digit digit)))) g"
    and ab: "is_digit a" "is_digit b"
    unfolding price_number_def
    by (auto simp: rx_lang_Seq[of _ "Seq _ _"] rx_lang_Seq[of "chr _"] rx_lang_Seq[of digit digit] rx_lang_digit rx_lang_chr)
  from h have hd: "h \<noteq> []" "list_all is_digit h"
    by (auto simp: rx_lang_Seq rx_lang_digit rx_lang_Alt rx_lang_Eps opt_rx_def)
  from thousands_groups[OF g] have gd: "list_all is_digit (filter (\<lambda>x. x \<noteq> CHR '','') g)" by simp
  have hf: "filter (\<lambda>x. x \<noteq> CHR '','') h = h"
    using hd(2) not_digit_comma by (auto simp: filter_id_conv list_all_iff)
  have abf: "a \<noteq> CHR '',''" "b \<noteq> CHR '',''"
    using ab not_digit_comma by auto
  have "filter (\<lambda>x. x \<noteq> CHR '','') w = (h @ filter (\<lambda>x. x \<noteq> CHR '','') g) @ [CHR ''.'', a, b]"
    using w hf abf by simp
  moreover have "h @ filter (\<lambda>x. x \<noteq> CHR '','') g \<noteq> []" using hd by simp
  moreover have "list_all is_digit (h @ filter (\<lambda>x. x \<noteq> CHR '','') g)" using hd gd by simp
  ultimately show ?thesis using ab by blast
qed

lemma py_float_decimal:
  assumes "ip \<noteq> []" "list_all is_digit ip" "is_digit a" "is_digit b"
  shows "py_float (ip @ [CHR ''.'', a, b]) =
           Inr (of_nat (dec_value ip) + of_nat (dec_value [a, b]) / 10 ^ 2)"
proof -
  have tw: "takeWhile is_digit (ip @ [CHR ''.'', a, b]) = ip"
    using assms(2) not_digit_comma by (simp add: takeWhile_append2 list_all_iff)
  have dw: "dropWhile is_digit (ip @ [CHR ''.'', a, b]) = [CHR ''.'', a, b]"
    using assms(2) not_digit_comma by (simp add: dropWhile_append2 list_all_iff)
  show ?thesis
    unfolding py_float_def Let_def tw dw using assms by simp
qed

text \<open>
  C9. For every line whose price token is matched by the price pattern and is neither
  of the two sentinels, the conversion of the token without its thousands separators
  succeeds, and the price of the row is the value it gives: the branch that would take
  a failed conversion is not reached. That branch, for any string on which the
  conversion fails, gives an absent price and nothing else.
\<close>

theorem price_conversion_succeeds:
  assumes tok: "price_token_of line = Some token" and ns: "token \<noteq> ''-''" "token \<noteq> ''$n/a$''"
  shows "(\<exists>v. py_float (replace '','' [] token) = Inr v \<and>
              convert_price (replace '','' [] token) = Some v \<and>
              (\<forall>row. parse_smart_row line cat = Some row \<longrightarrow> price row = Some v)) \<and>
         (\<forall>s. py_float s = Inl ValueError \<longrightarrow> convert_price s = None)"
proof -
  from tok obtain start where "price_match (strip line) = Some (start, token)"
    by (auto simp: price_token_of_def)
  then have "rx_lang price_token token" by (rule price_match_token)
  then have "rx_lang price_number token \<or> rx_lang (lit ''$n/a$'') token \<or> rx_lang (lit ''-'') token"
    unfolding price_token_def by (simp only: rx_lang_Alt)
  with ns have "rx_lang price_number token"
    by (blast dest: rx_lang_lit)
  from price_number_shape[OF this] obtain ip a b
    where sh: "replace '','' [] token = ip @ [CHR ''.'', a, b]"
      and d: "ip \<noteq> []" "list_all is_digit ip" "is_digit a" "is_digit b"
    unfolding replace_char_filter by blast
  from py_float_decimal[OF d] obtain v where v: "py_float (replace '','' [] token) = Inr v"
    unfolding sh by blast
  have "replace '','' [] token \<noteq> ''-''" "replace '','' [] token \<noteq> ''$n/a$''"
    unfolding sh using d(1) by (cases ip; simp)+
  with v have cv: "convert_price (replace '','' [] token) = Some v"
    by (simp add: convert_price_def)
  have row: "\<forall>row. parse_smart_row line cat = Some row \<longrightarrow> price row = Some v"
  proof (intro allI impI)
    fix row assume "parse_smart_row line cat = Some row"
    with tok have "price row = convert_price (replace '','' [] token)"
      by (auto simp: parse_smart_row_unfold split: if_splits)
    with cv show "price row = Some v" by simp
  qed
  have "\<forall>s. py_float s = Inl ValueError \<longrightarrow> convert_price s = None"
    by (simp add: convert_price_def)
  with v cv row show ?thesis by blast
qed

lemma rice_line:
  "price_token_of ''Well Milled Rice 1,245.50'' = Some ''1,245.50''"
  "convert_price (replace '','' [] ''1,245.50'') = Some (124550 / 100)"
  by code_simp+

theorem price_conversion_succeeds_witness:
  "price_token_of ''Well Milled Rice 1,245.50'' = Some ''1,245.50'' \<and>
   py_float (replace '','' [] ''1,245.50'') = Inr (124550 / 100)"
proof -
  have ns: "''1,245.50'' \<noteq> ''-''" "''1,245.50'' \<noteq> ''$n/a$''" by simp_all
  from price_conversion_succeeds[OF rice_line(1) ns, of "''FISH PRODUCTS''"]
  obtain v where v: "py_float (replace '','' [] ''1,245.50'') = Inr v"
    "convert_price (replace '','' [] ''1,245.50'') = Some v"
    by blast
  from v(2) rice_line(2) have "v = 124550 / 100" by simp
  with v(1) rice_line(1) show ?thesis by blast
qed

section \<open>The market list\<close>

lemma all_dropWhile: "(\<forall>x \<in> set (dropWhile p s). p x) \<longleftrightarrow> (\<forall>x \<in> set s. p x)"
proof
  assume a: "\<forall>x \<in> set (dropWhile p s). p x"
  show "\<forall>x \<in> set s. p x"
  proof
    fix x assume "x \<in> set s"
    moreover have "set s = set (takeWhile p s) \<union> set (dropWhile p s)"
      by (metis set_append takeWhile_dropWhile_id)
    ultimately consider "x \<in> set (takeWhile p s)" | "x \<in> set (dropWhile p s)" by blast
    then show "p x"
    proof cases
      case 1
      then show ?thesis by (rule set_takeWhileD[THEN conjunct2])
    next
      case 2
      with a show ?thesis by blast
    qed
  qed
next
  assume "\<forall>x \<in> set s. p x"
  then show "\<forall>x \<in> set (dropWhile p s). p x" by (blast dest: set_dropWhileD)
qed

lemma strip_chars_empty_iff: "strip_chars p s = [] \<longleftrightarrow> list_all p s"
proof -
  have "strip_chars p s = [] \<longleftrightarrow> (\<forall>x \<in> set (dropWhile p s). p x)"
    by (simp add: strip_chars_def dropWhile_eq_Nil_conv)
  then show ?thesis by (simp only: all_dropWhile list_all_iff)
qed

lemma strip_empty_iff: "strip m = [] \<longleftrightarrow> is_blank m"
  by (simp add: strip_def is_blank_def strip_chars_empty_iff)

lemma first_match_Sym:
  "first_match (Sym p) (prev, s) = (case s of [] \<Rightarrow> None | c # cs \<Rightarrow> if p c then Some (Some c, cs) else None)"
  by (simp add: first_match_def split: list.splits)

lemma re_sub_from_Sym:
  "re_sub_from (Sym p) repl (prev, s) = concat (map (\<lambda>c. if p c then repl else [c]) s)"
proof (induction s arbitrary: prev)
  case Nil
  show ?case by (subst re_sub_from.simps) (simp add: first_match_Sym)
next
  case (Cons c cs)
  show ?case by (subst re_sub_from.simps) (simp add: first_match_Sym Cons)
qed

lemma clean_market_trim: "clean_market m = trim_entry m"
proof -
  have "concat (map (\<lambda>c. if c = CHR 0x0A \<or> c = CHR 0x0D then '' '' else [c]) m) =
        map (\<lambda>c. if c = CHR 0x0A \<or> c = CHR 0x0D then CHR '' '' else c) m"
    by (induction m) auto
  then show ?thesis
    by (simp add: clean_market_def trim_entry_def re_sub_def re_sub_from_Sym)
qed

lemma dict_keys_set_old:
  "k \<in> set (dict_keys d) \<Longrightarrow> dict_keys (dict_set d k v) = dict_keys d"
proof (induction d)
  case Nil
  then show ?case by (simp add: dict_keys_def)
next
  case (Cons e d)
  obtain k' v' where e: "e = (k', v')" by (cases e)
  show ?case
  proof (cases "k' = k")
    case True
    with e show ?thesis by (simp add: dict_keys_def)
  next
    case False
    with Cons.prems e have "k \<in> set (dict_keys d)" by (simp add: dict_keys_def)
    from Cons.IH[OF this] False e show ?thesis by (simp add: dict_keys_def)
  qed
qed

lemma dict_keys_set_new:
  "k \<notin> set (dict_keys d) \<Longrightarrow> dict_keys (dict_set d k v) = dict_keys d @ [k]"
  by (induction d) (auto simp: dict_keys_def)

lemma dict_fold_keys:
  "dict_keys (foldl (\<lambda>d k. dict_set d k ()) d xs) =
   dict_keys d @ first_seen (filter (\<lambda>x. x \<notin> set (dict_keys d)) xs)"
proof (induction xs arbitrary: d)
  case Nil
  then show ?case by simp
next
  case (Cons x xs)
  show ?case
  proof (cases "x \<in> set (dict_keys d)")
    case True
    then have "dict_keys (dict_set d x ()) = dict_keys d" by (rule dict_keys_set_old)
    with Cons.IH[of "dict_set d x ()"] True show ?thesis by simp
  next
    case False
    then have k: "dict_keys (dict_set d x ()) = dict_keys d @ [x]" by (rule dict_keys_set_new)
    have "filter (\<lambda>y. y \<notin> set (dict_keys d @ [x])) xs =
          filter (\<lambda>y. y \<noteq> x) (filter (\<lambda>y. y \<notin> set (dict_keys d)) xs)"
      by (simp add: conj_commute)
    with Cons.IH[of "dict_set d x ()"] False k show ?thesis by simp
  qed
qed

lemma dict_fromkeys_first_seen: "dict_keys (dict_fromkeys xs) = first_seen xs"
  using dict_fold_keys[of "[]" xs] by (simp add: dict_fromkeys_def dict_keys_def)

lemma set_first_seen: "set (first_seen xs) = set xs"
  by (induction xs rule: first_seen.induct) auto

lemma distinct_first_seen: "distinct (first_seen xs)"
  by (induction xs rule: first_seen.induct) (auto simp: set_first_seen)

text \<open>
  C6, as the claim lists the steps, fails: the length of a fragment is tested before
  the fragment is trimmed, not after. In the text below the block ends in the fragment
  \<^verbatim>\<open>Ab\<close> followed by three blanks: five characters as split, two when trimmed.
  The parser keeps it; trimming before discarding would drop it.
\<close>

theorem covered_markets_counterexample:
  "covered_markets (parse_text_to_json ''Covered markets: 1. Market A 2. Ab   Page 2'') =
     [''Market A'', ''Ab''] \<and>
   covered_markets_as_listed ''Covered markets: 1. Market A 2. Ab   Page 2'' = [''Market A'']"
  by code_simp

text \<open>
  C6, amended. When the market pattern finds no block, \<^verbatim>\<open>covered_markets\<close> is
  empty. Otherwise it is obtained from the captured block by splitting it at the numeric
  list markers, discarding the fragments that are blank or have three characters or
  fewer as split (before any trimming), trimming each fragment that is kept (line
  breaks become blanks, whitespace at both ends goes), and removing duplicates so that
  each name stays where it was first seen. The result has no name twice.
\<close>

theorem covered_markets_pipeline:
  "(market_block_of raw_text = None \<longrightarrow> covered_markets (parse_text_to_json raw_text) = []) \<and>
   (\<forall>block. market_block_of raw_text = Some block \<longrightarrow>
      covered_markets (parse_text_to_json raw_text) =
        first_seen (map trim_entry
          (filter (\<lambda>m. \<not> is_blank m \<and> 3 < length m) (re_split marker_rx block)))) \<and>
   distinct (covered_markets (parse_text_to_json raw_text))"
proof -
  have cm: "covered_markets (parse_text_to_json raw_text) = extract_markets raw_text"
    by (simp add: parse_text_to_json_def Let_def)
  have none: "market_block_of raw_text = None \<longrightarrow> extract_markets raw_text = []"
    by (auto simp: market_block_of_def extract_markets_def)
  have some: "\<forall>block. market_block_of raw_text = Some block \<longrightarrow>
      extract_markets raw_text =
        first_seen (map trim_entry
          (filter (\<lambda>m. \<not> is_blank m \<and> 3 < length m) (re_split marker_rx block)))"
  proof (intro allI impI)
    fix block assume "market_block_of raw_text = Some block"
    then obtain start where "search_group market_pre market_block market_post raw_text = Some (start, block)"
      by (auto simp: market_block_of_def)
    then have "extract_markets raw_text =
       dict_keys (dict_fromkeys (map clean_market
          (filter (\<lambda>m. strip m \<noteq> [] \<and> length m > 3) (re_split marker_rx block))))"
      by (simp add: extract_markets_def Let_def)
    also have "map clean_market = map trim_entry"
      by (rule arg_cong[where f = map]) (rule ext, rule clean_market_trim)
    finally show "extract_markets raw_text =
        first_seen (map trim_entry
          (filter (\<lambda>m. \<not> is_blank m \<and> 3 < length m) (re_split marker_rx block)))"
      by (simp add: dict_fromkeys_first_seen strip_empty_iff)
  qed
  have "distinct (extract_markets raw_text)"
  proof (cases "market_block_of raw_text")
    case None
    with none show ?thesis by simp
  next
    case (Some block)
    with some show ?thesis by (simp add: distinct_first_seen)
  qed
  with none some show ?thesis unfolding cm by blast
qed

lemma market_text:
  "market_block_of ''Covered markets: 1. Market A 2. Market B Page 2'' = Some ''1. Market A 2. Market B ''"
  "first_seen (map trim_entry
     (filter (\<lambda>m. \<not> is_blank m \<and> 3 < length m) (re_split marker_rx ''1. Market A 2. Market B ''))) =
     [''Market A'', ''Market B'']"
  "market_block_of ''Bangus 10.00'' = None"
  by code_simp+

theorem covered_markets_pipeline_witness:
  "market_block_of ''Covered markets: 1. Market A 2. Market B Page 2'' = Some ''1. Market A 2. Market B '' \<and>
   covered_markets (parse_text_to_json ''Covered markets: 1. Market A 2. Market B Page 2'') =
     [''Market A'', ''Market B''] \<and>
   market_block_of ''Bangus 10.00'' = None \<and>
   covered_markets (parse_text_to_json ''Bangus 10.00'') = []"
proof -
  from covered_markets_pipeline[of "''Covered markets: 1. Market A 2. Market B Page 2''"] market_text(1)
  have "covered_markets (parse_text_to_json ''Covered markets: 1. Market A 2. Market B Page 2'') =
        first_seen (map trim_entry
          (filter (\<lambda>m. \<not> is_blank m \<and> 3 < length m) (re_split marker_rx ''1. Market A 2. Market B '')))"
    by blast
  then have a: "covered_markets (parse_text_to_json ''Covered markets: 1. Market A 2. Market B Page 2'') =
     [''Market A'', ''Market B'']"
    by (simp only: market_text(2))
  from covered_markets_pipeline[of "''Bangus 10.00''"] market_text(3)
  have b: "covered_markets (parse_text_to_json ''Bangus 10.00'') = []"
    by blast
  from a b market_text(1,3) show ?thesis by blast
qed

end
